theory Spec2Isabelle
  imports Main "HOL-Library.Multiset"
begin

section \<open>S3 snapshot store of pkg/etcd/s3.go\<close>

text \<open>
  A shallow embedding of \<^verbatim>\<open>pkg/etcd/s3.go\<close>. Go strings are byte strings and are
  modelled as \<^typ>\<open>string\<close>; \<^verbatim>\<open>int\<close> and \<^verbatim>\<open>int64\<close> values are modelled as \<^typ>\<open>int\<close>, with
  the 64-bit range written out where the code depends on it (\<^verbatim>\<open>strconv.ParseInt\<close>).
  Contexts, timeouts and logging have no effect on the values computed and are left out.
\<close>

subsection \<open>Errors\<close>

text \<open>
  Go \<^verbatim>\<open>error\<close> values. \<^verbatim>\<open>errors.New\<close> and \<^verbatim>\<open>fmt.Errorf\<close> build an error from its
  text, \<^verbatim>\<open>errors.Wrap\<close> prefixes a message, and \<open>External\<close> stands for an error
  returned by a library or by the backend, carrying its text.
\<close>

datatype error =
    ErrorsNew string
  | FmtErrorf string
  | ErrorsWrap error string
  | External string

fun Error :: "error \<Rightarrow> string" where
  "Error (ErrorsNew s) = s"
| "Error (FmtErrorf s) = s"
| "Error (ErrorsWrap e msg) = msg @ '': '' @ Error e"
| "Error (External s) = s"

subsection \<open>The functions of package strings that the code calls\<close>

definition strings_HasPrefix :: "string \<Rightarrow> string \<Rightarrow> bool" where
  "strings_HasPrefix s pre \<longleftrightarrow> length pre \<le> length s \<and> take (length pre) s = pre"

definition strings_HasSuffix :: "string \<Rightarrow> string \<Rightarrow> bool" where
  "strings_HasSuffix s suf \<longleftrightarrow>
     length suf \<le> length s \<and> drop (length s - length suf) s = suf"

text \<open>\<^verbatim>\<open>strings.CutSuffix\<close>: the string without the suffix and whether it was there.\<close>

definition strings_CutSuffix :: "string \<Rightarrow> string \<Rightarrow> string \<times> bool" where
  "strings_CutSuffix s suf =
     (if strings_HasSuffix s suf then (take (length s - length suf) s, True) else (s, False))"

text \<open>\<^verbatim>\<open>strings.Contains\<close>: the substring occurs at some position.\<close>

fun strings_Contains :: "string \<Rightarrow> string \<Rightarrow> bool" where
  "strings_Contains [] sub = (sub = [])"
| "strings_Contains (c # cs) sub =
     (strings_HasPrefix (c # cs) sub \<or> strings_Contains cs sub)"

text \<open>\<^verbatim>\<open>strings.LastIndexByte\<close>: the index of the last occurrence, or -1.\<close>

fun strings_LastIndexByte :: "string \<Rightarrow> char \<Rightarrow> int" where
  "strings_LastIndexByte [] c = -1"
| "strings_LastIndexByte (x # xs) c =
     (let i = strings_LastIndexByte xs c
      in if i \<noteq> -1 then i + 1 else if x = c then 0 else -1)"

subsection \<open>Package path: Clean, Join and Base\<close>

text \<open>
  \<^verbatim>\<open>path.Clean\<close> writes its result into a buffer \<open>out\<close> whose write index is the
  length of the list here. On a \<^verbatim>\<open>..\<close> element the index moves back to the
  previous slash, but not before \<open>dotdot\<close>.
\<close>

fun backtrack :: "nat \<Rightarrow> string \<Rightarrow> nat \<Rightarrow> nat" where
  "backtrack dotdot out w =
     (if w > dotdot \<and> out ! w \<noteq> CHR ''/'' then backtrack dotdot out (w - 1) else w)"

declare backtrack.simps [simp del]

function Clean_loop :: "bool \<Rightarrow> nat \<Rightarrow> string \<Rightarrow> string \<Rightarrow> string" where
  "Clean_loop rooted dotdot out [] = out"
| "Clean_loop rooted dotdot out (c # rest) =
     (if c = CHR ''/'' then Clean_loop rooted dotdot out rest
      else if c = CHR ''.'' \<and> (rest = [] \<or> hd rest = CHR ''/'') then
        Clean_loop rooted dotdot out rest
      else if c = CHR ''.'' \<and> hd rest = CHR ''.'' \<and> (tl rest = [] \<or> hd (tl rest) = CHR ''/'') then
        (if length out > dotdot then
           Clean_loop rooted dotdot (take (backtrack dotdot out (length out - 1)) out) (tl rest)
         else if \<not> rooted then
           (let out' = (if out \<noteq> [] then out @ ''/'' else out) @ ''..''
            in Clean_loop rooted (length out') out' (tl rest))
         else Clean_loop rooted dotdot out (tl rest))
      else
        (let out' = (if rooted \<and> length out \<noteq> 1 \<or> \<not> rooted \<and> length out \<noteq> 0
                     then out @ ''/'' else out)
         in Clean_loop rooted dotdot
              (out' @ takeWhile (\<lambda>x. x \<noteq> CHR ''/'') (c # rest))
              (dropWhile (\<lambda>x. x \<noteq> CHR ''/'') (c # rest))))"
  by pat_completeness auto
termination
  by (relation "measure (\<lambda>(rooted, dotdot, out, rest). length rest)")
     (auto simp: less_Suc_eq_le length_dropWhile_le)

declare Clean_loop.simps [simp del]

definition path_Clean :: "string \<Rightarrow> string" where
  "path_Clean path =
     (if path = [] then ''.''
      else
        (let rooted = (hd path = CHR ''/'');
             out = (if rooted then Clean_loop True 1 ''/'' (tl path)
                    else Clean_loop False 0 [] path)
         in if out = [] then ''.'' else out))"

text \<open>\<^verbatim>\<open>path.Join\<close>: the non-empty elements, joined by slashes and cleaned; the empty
  string when every element is empty.\<close>

fun join_elems :: "string \<Rightarrow> string list \<Rightarrow> string" where
  "join_elems buf [] = buf"
| "join_elems buf (e # es) =
     (if buf \<noteq> [] \<or> e \<noteq> [] then
        join_elems ((if buf \<noteq> [] then buf @ ''/'' else buf) @ e) es
      else join_elems buf es)"

definition path_Join :: "string list \<Rightarrow> string" where
  "path_Join elem = (if concat elem = [] then [] else path_Clean (join_elems [] elem))"

text \<open>\<^verbatim>\<open>path.Base\<close>: the last element of the path, after the trailing slashes are
  removed; \<^verbatim>\<open>.\<close> for the empty path and \<^verbatim>\<open>/\<close> for a path of slashes only.\<close>

definition strip_trailing_slashes :: "string \<Rightarrow> string" where
  "strip_trailing_slashes path = rev (dropWhile (\<lambda>x. x = CHR ''/'') (rev path))"

definition path_Base :: "string \<Rightarrow> string" where
  "path_Base path =
     (if path = [] then ''.''
      else
        (let p = strip_trailing_slashes path;
             i = strings_LastIndexByte p (CHR ''/'');
             p' = (if i \<ge> 0 then drop (nat (i + 1)) p else p)
         in if p' = [] then ''/'' else p'))"

text \<open>Package \<^verbatim>\<open>path/filepath\<close> on a system whose separator is the slash and that has
  no volume names: \<^verbatim>\<open>filepath.Base\<close> and \<^verbatim>\<open>filepath.Join\<close> are the functions of
  package \<^verbatim>\<open>path\<close>.\<close>

definition filepath_Base :: "string \<Rightarrow> string" where
  "filepath_Base = path_Base"

definition filepath_Join :: "string list \<Rightarrow> string" where
  "filepath_Join = path_Join"

text \<open>
  A path element that \<^verbatim>\<open>path.Clean\<close> leaves alone: not empty, without a slash, and
  neither \<^verbatim>\<open>.\<close> nor \<^verbatim>\<open>..\<close>; and the path made of such elements with one slash
  between them.
\<close>

definition simple_elem :: "string \<Rightarrow> bool" where
  "simple_elem s \<longleftrightarrow> s \<noteq> [] \<and> CHR ''/'' \<notin> set s \<and> s \<noteq> ''.'' \<and> s \<noteq> ''..''"

fun join_slash :: "string list \<Rightarrow> string" where
  "join_slash [] = []"
| "join_slash [e] = e"
| "join_slash (e # es) = e @ ''/'' @ join_slash es"

subsection \<open>Standard base64 encoding\<close>

definition encodeStd :: string where
  "encodeStd = ''ABCDEFGHIJKLMNOPQRSTUVWXYZabcdefghijklmnopqrstuvwxyz0123456789+/''"

definition b64char :: "nat \<Rightarrow> char" where
  "b64char i = encodeStd ! i"

text \<open>\<^verbatim>\<open>base64.StdEncoding.EncodeToString\<close>: three bytes give four characters of the
  standard alphabet; a last group of one or two bytes is padded with \<^verbatim>\<open>=\<close>.\<close>

fun encode_bytes :: "nat list \<Rightarrow> string" where
  "encode_bytes [] = []"
| "encode_bytes [a] =
     [b64char (a div 4), b64char ((a mod 4) * 16), CHR ''='', CHR ''='']"
| "encode_bytes [a, b] =
     [b64char (a div 4), b64char ((a mod 4) * 16 + b div 16),
      b64char ((b mod 16) * 4), CHR ''='']"
| "encode_bytes (a # b # c # rest) =
     [b64char (a div 4), b64char ((a mod 4) * 16 + b div 16),
      b64char ((b mod 16) * 4 + c div 64), b64char (c mod 64)] @ encode_bytes rest"

definition base64_EncodeToString :: "string \<Rightarrow> string" where
  "base64_EncodeToString src = encode_bytes (map of_char src)"

subsection \<open>strconv.ParseInt in base 10 with 64 bits\<close>

definition is_digit :: "char \<Rightarrow> bool" where
  "is_digit c \<longleftrightarrow> (48::nat) \<le> of_char c \<and> (of_char c :: nat) \<le> 57"

definition digit_val :: "char \<Rightarrow> int" where
  "digit_val c = int (of_char c) - 48"

text \<open>The value of a string of decimal digits.\<close>

definition decimal :: "string \<Rightarrow> int" where
  "decimal s = foldl (\<lambda>n c. 10 * n + digit_val c) 0 s"

datatype NumError = ErrSyntax | ErrRange

text \<open>
  \<^verbatim>\<open>strconv.ParseInt(s, 10, 64)\<close>: an optional sign, then at least one decimal digit
  and nothing else (the underscore is a separator in base 0 only); a value outside
  the signed 64-bit range is a range error.
\<close>

definition ParseInt :: "string \<Rightarrow> NumError + int" where
  "ParseInt s =
     (if s = [] then Inl ErrSyntax
      else
        (let neg = (hd s = CHR ''-'');
             body = (if hd s = CHR ''+'' \<or> hd s = CHR ''-'' then tl s else s)
         in if body = [] \<or> \<not> list_all is_digit body then Inl ErrSyntax
            else if \<not> neg \<and> decimal body \<ge> 2 ^ 63 then Inl ErrRange
            else if neg \<and> decimal body > 2 ^ 63 then Inl ErrRange
            else Inr (if neg then - decimal body else decimal body)))"

subsection \<open>Time\<close>

text \<open>
  A \<^verbatim>\<open>time.Time\<close> is an instant, modelled as its number of nanoseconds since the Unix
  epoch. \<^verbatim>\<open>t.Unix()\<close> is the number of whole seconds, \<^verbatim>\<open>time.Unix(sec, nsec)\<close> the
  instant, and \<^verbatim>\<open>t.Before(u)\<close> compares instants.
\<close>

type_synonym Time = int

definition Time_Unix :: "Time \<Rightarrow> int" where
  "Time_Unix t = t div 1000000000"

definition time_Unix :: "int \<Rightarrow> int \<Rightarrow> Time" where
  "time_Unix sec nsec = sec * 1000000000 + nsec"

definition Before :: "Time \<Rightarrow> Time \<Rightarrow> bool" where
  "Before t u \<longleftrightarrow> t < u"

subsection \<open>Bucket addressing mode\<close>

text \<open>The three values of \<^verbatim>\<open>minio.BucketLookupType\<close>: automatic detection,
  virtual-host (DNS) style and path style.\<close>

datatype BucketLookupType = BucketLookupAuto | BucketLookupDNS | BucketLookupPath

definition bucketLookupType :: "string \<Rightarrow> BucketLookupType" where
  "bucketLookupType endpoint =
     (if strings_Contains endpoint ''aliyun'' then BucketLookupDNS else BucketLookupAuto)"

subsection \<open>Configuration and transport\<close>

text \<open>The fields of \<^verbatim>\<open>config.Control\<close> that this file reads or writes.\<close>

record Control =
  EtcdS3 :: bool
  EtcdS3BucketName :: string
  EtcdS3Endpoint :: string
  EtcdS3EndpointCA :: string
  EtcdS3SkipSSLVerify :: bool
  EtcdS3AccessKey :: string
  EtcdS3SecretKey :: string
  EtcdS3Region :: string
  EtcdS3Folder :: string
  EtcdS3Insecure :: bool
  EtcdS3Timeout :: int
  EtcdSnapshotName :: string
  EtcdSnapshotRetention :: int
  ClusterResetRestorePath :: string

text \<open>
  \<^verbatim>\<open>tls.Config\<close> with the two fields the code sets; a certificate pool is the list of
  PEM data appended to it, and \<open>None\<close> is the nil pool. \<^verbatim>\<open>http.DefaultTransport\<close> is
  a process-wide variable that \<^verbatim>\<open>NewS3\<close> updates in place: the functions below take
  its value and return the new one.
\<close>

record tls_Config =
  RootCAs :: "string list option"
  InsecureSkipVerify :: bool

record Transport =
  TLSClientConfig :: "tls_Config option"

datatype Credentials = NewIAM string | NewStaticV4 string string string

text \<open>\<^verbatim>\<open>minio.Options\<close>; its field \<^verbatim>\<open>Region\<close> is \<open>OptRegion\<close> here, since the record
  \<open>s3Config\<close> below has a field of that name.\<close>

record Options =
  Creds :: Credentials
  Secure :: bool
  OptRegion :: string
  OptTransport :: Transport
  BucketLookup :: BucketLookupType

record Client =
  ClientEndpoint :: string
  ClientOptions :: Options

record S3 =
  config :: Control
  client :: Client

text \<open>
  What \<^verbatim>\<open>NewS3\<close> calls outside this file: the base64 decoder, \<^verbatim>\<open>os.ReadFile\<close>,
  \<^verbatim>\<open>pem.Decode\<close> (the bytes of the first block, if there is one),
  \<^verbatim>\<open>x509.ParseCertificates\<close>, \<^verbatim>\<open>minio.New\<close> and the client's
  \<^verbatim>\<open>BucketExists\<close>. Their results are given by the environment.
\<close>

record env =
  base64_DecodeString :: "string \<Rightarrow> error + string"
  os_ReadFile :: "string \<Rightarrow> error + string"
  pem_Decode :: "string \<Rightarrow> string option"
  x509_ParseCertificates :: "string \<Rightarrow> error + string list"
  minio_New :: "string \<Rightarrow> Options \<Rightarrow> error + Client"
  BucketExists :: "Client \<Rightarrow> string \<Rightarrow> error + bool"

text \<open>The calls that reach the file system, the client library or the network, in
  the order in which they are made.\<close>

datatype call =
    ReadFileCall string
  | MinioNewCall string Options
  | BucketExistsCall string

definition readS3EndpointCA :: "env \<Rightarrow> string \<Rightarrow> (error + string) \<times> call list" where
  "readS3EndpointCA e endpointCA =
     (case base64_DecodeString e endpointCA of
        Inl err \<Rightarrow> (os_ReadFile e endpointCA, [ReadFileCall endpointCA])
      | Inr ca \<Rightarrow> (Inr ca, []))"

definition isValidCertificate :: "env \<Rightarrow> string \<Rightarrow> bool" where
  "isValidCertificate e c =
     (case pem_Decode e c of
        None \<Rightarrow> False
      | Some p \<Rightarrow>
          (case x509_ParseCertificates e p of Inl err \<Rightarrow> False | Inr certs \<Rightarrow> True))"

definition setTransportCA ::
  "env \<Rightarrow> Transport \<Rightarrow> string \<Rightarrow> bool \<Rightarrow> (Transport \<times> error option) \<times> call list" where
  "setTransportCA e tr endpointCA insecureSkipVerify =
     (case readS3EndpointCA e endpointCA of
        (Inl err, cs) \<Rightarrow> ((tr, Some err), cs)
      | (Inr ca, cs) \<Rightarrow>
          if \<not> isValidCertificate e ca then
            ((tr, Some (ErrorsNew ''endpoint-ca is not a valid x509 certificate'')), cs)
          else
            ((tr\<lparr>TLSClientConfig :=
                    Some \<lparr>RootCAs = Some [ca], InsecureSkipVerify = insecureSkipVerify\<rparr>\<rparr>,
              None), cs))"

text \<open>
  \<^verbatim>\<open>NewS3\<close> returns the handle or the error, the value of the default transport
  afterwards, and the calls it made.
\<close>

definition NewS3 :: "env \<Rightarrow> Control \<Rightarrow> Transport \<Rightarrow> (error + S3) \<times> Transport \<times> call list" where
  "NewS3 e cfg tr0 =
     (if EtcdS3BucketName cfg = [] then
        (Inl (ErrorsNew ''s3 bucket name was not set''), tr0, [])
      else
        (case
           (if EtcdS3EndpointCA cfg \<noteq> [] then
              (case setTransportCA e tr0 (EtcdS3EndpointCA cfg) (EtcdS3SkipSSLVerify cfg) of
                 ((trCA, Some err), cs) \<Rightarrow> (Some err, trCA, cs)
               | ((trCA, None), cs) \<Rightarrow> (None, trCA, cs))
            else if EtcdS3 cfg \<and> EtcdS3SkipSSLVerify cfg then
              (None,
               tr0\<lparr>TLSClientConfig :=
                     Some \<lparr>RootCAs = None, InsecureSkipVerify = EtcdS3SkipSSLVerify cfg\<rparr>\<rparr>,
               [])
            else (None, tr0, []))
         of
           (Some err, tr, cs) \<Rightarrow> (Inl err, tr, cs)
         | (None, tr, cs) \<Rightarrow>
             (let creds =
                    (if length (EtcdS3AccessKey cfg) = 0 \<and> length (EtcdS3SecretKey cfg) = 0
                     then NewIAM []
                     else NewStaticV4 (EtcdS3AccessKey cfg) (EtcdS3SecretKey cfg) []);
                  opt = \<lparr>Creds = creds,
                         Secure = (\<not> EtcdS3Insecure cfg),
                         OptRegion = EtcdS3Region cfg,
                         OptTransport = tr,
                         BucketLookup = bucketLookupType (EtcdS3Endpoint cfg)\<rparr>;
                  cs1 = cs @ [MinioNewCall (EtcdS3Endpoint cfg) opt]
              in case minio_New e (EtcdS3Endpoint cfg) opt of
                   Inl err \<Rightarrow> (Inl err, tr, cs1)
                 | Inr c \<Rightarrow>
                     (let cs2 = cs1 @ [BucketExistsCall (EtcdS3BucketName cfg)]
                      in case BucketExists e c (EtcdS3BucketName cfg) of
                           Inl err \<Rightarrow> (Inl err, tr, cs2)
                         | Inr exists \<Rightarrow>
                             if \<not> exists then
                               (Inl (FmtErrorf (''bucket: '' @ EtcdS3BucketName cfg
                                                @ '' does not exist'')), tr, cs2)
                             else (Inr \<lparr>config = cfg, client = c\<rparr>, tr, cs2)))))"

subsection \<open>Snapshot records\<close>

text \<open>
  Modelled from the spec: the constant \<^verbatim>\<open>compressedExtension\<close> is declared in another
  file of the package. The specification speaks of one recognized compressed-archive
  suffix and names it in its scenario, \<^verbatim>\<open>snapshot-20240101.zip\<close>.
\<close>

definition compressedExtension :: string where
  "compressedExtension = ''.zip''"

text \<open>
  Modelled from the spec: the status constants \<^verbatim>\<open>successfulSnapshotStatus\<close> and
  \<^verbatim>\<open>failedSnapshotStatus\<close> are declared in another file of the package; the specification
  has the two outcomes success and failed. \<open>unsetSnapshotStatus\<close> is the zero value of
  a record whose status was never assigned.
\<close>

datatype snapshotStatus =
  unsetSnapshotStatus | successfulSnapshotStatus | failedSnapshotStatus

record s3Config =
  Endpoint :: string
  EndpointCA :: string
  SkipSSLVerify :: bool
  Bucket :: string
  Region :: string
  Folder :: string
  Insecure :: bool

text \<open>The data of a \<^verbatim>\<open>v1.ConfigMap\<close>, passed through unchanged.\<close>

type_synonym ConfigMap = "(string \<times> string) list"

text \<open>
  Modelled from the spec: the type \<^verbatim>\<open>snapshotFile\<close> is declared in another file of the
  package; these are the fields that \<^verbatim>\<open>upload\<close> and \<^verbatim>\<open>listSnapshots\<close> assign, the others
  keeping their zero values (the empty message, size 0, not compressed, no metadata).
\<close>

record snapshotFile =
  Name :: string
  NodeName :: string
  CreatedAt :: Time
  Size :: int
  S3 :: "s3Config option"
  Status :: snapshotStatus
  Message :: string
  Compressed :: bool
  metadataSource :: "ConfigMap option"

subsection \<open>Upload\<close>

record PutObjectOptions =
  NumThreads :: nat
  ContentType :: string

text \<open>\<^verbatim>\<open>minio.UploadInfo\<close>; its field \<^verbatim>\<open>Size\<close> is \<open>UploadSize\<close> here.\<close>

record UploadInfo =
  UploadSize :: int

text \<open>The arguments of one call of \<^verbatim>\<open>FPutObject\<close>: bucket, object key, local file
  and options.\<close>

type_synonym put_call = "string \<times> string \<times> string \<times> PutObjectOptions"

text \<open>
  \<^verbatim>\<open>upload\<close>, given the client's \<^verbatim>\<open>FPutObject\<close> as a function of its arguments.
  It returns the record, the error, and the call it made.
\<close>

definition upload ::
  "(string \<Rightarrow> string \<Rightarrow> string \<Rightarrow> PutObjectOptions \<Rightarrow> error + UploadInfo) \<Rightarrow>
   Control \<Rightarrow> string \<Rightarrow> ConfigMap option \<Rightarrow> Time \<Rightarrow>
   snapshotFile \<times> error option \<times> put_call list" where
  "upload FPutObject cfg snapshot extraMetadata now =
     (let basename = filepath_Base snapshot;
          sf = \<lparr>Name = basename,
                NodeName = ''s3'',
                CreatedAt = now,
                Size = 0,
                S3 = Some \<lparr>Endpoint = EtcdS3Endpoint cfg,
                           EndpointCA = EtcdS3EndpointCA cfg,
                           SkipSSLVerify = EtcdS3SkipSSLVerify cfg,
                           Bucket = EtcdS3BucketName cfg,
                           Region = EtcdS3Region cfg,
                           Folder = EtcdS3Folder cfg,
                           Insecure = EtcdS3Insecure cfg\<rparr>,
                Status = unsetSnapshotStatus,
                Message = [],
                Compressed = False,
                metadataSource = extraMetadata\<rparr>;
          snapshotKey = path_Join [EtcdS3Folder cfg, basename];
          (opts, sf1) =
            (if strings_HasSuffix snapshot compressedExtension then
               (\<lparr>NumThreads = 2, ContentType = ''application/zip''\<rparr>, sf\<lparr>Compressed := True\<rparr>)
             else (\<lparr>NumThreads = 2, ContentType = ''application/octet-stream''\<rparr>, sf));
          calls = [(EtcdS3BucketName cfg, snapshotKey, snapshot, opts)]
      in case FPutObject (EtcdS3BucketName cfg) snapshotKey snapshot opts of
           Inl err \<Rightarrow>
             (sf1\<lparr>Status := failedSnapshotStatus,
                  Message := base64_EncodeToString (Error err)\<rparr>, Some err, calls)
         | Inr uploadInfo \<Rightarrow>
             (sf1\<lparr>Status := successfulSnapshotStatus, Size := UploadSize uploadInfo\<rparr>,
              None, calls))"

subsection \<open>The object store\<close>

text \<open>\<^verbatim>\<open>minio.ObjectInfo\<close>, as a listing yields it: an object, or an error in the field
  \<^verbatim>\<open>Err\<close>. Its field \<^verbatim>\<open>Size\<close> is \<open>ObjectSize\<close> here.\<close>

record ObjectInfo =
  Key :: string
  ObjectSize :: int
  LastModified :: Time
  Err :: "error option"

record ListObjectsOptions =
  Prefix :: string
  Recursive :: bool

text \<open>The zero value of \<^verbatim>\<open>time.Time\<close>, the first instant of the year 1.\<close>

definition zero_Time :: Time where
  "zero_Time = time_Unix (- 62135596800) 0"

text \<open>
  The bucket behind the client: the objects stored in it, each with its key, its size
  and its modification time, and the failures that the backend will answer with.
  \<open>list_fault = Some (n, e)\<close> makes a listing end with the error \<open>e\<close> after \<open>n\<close>
  entries; \<open>remove_fault key = Some e\<close> makes the removal of \<open>key\<close> fail with \<open>e\<close>.
\<close>

record stored_object =
  stored_key :: string
  stored_size :: int
  stored_modified :: Time

record backend =
  objects :: "stored_object list"
  list_fault :: "(nat \<times> error) option"
  remove_fault :: "string \<Rightarrow> error option"

definition object_info :: "stored_object \<Rightarrow> ObjectInfo" where
  "object_info obj =
     \<lparr>Key = stored_key obj, ObjectSize = stored_size obj,
      LastModified = stored_modified obj, Err = None\<rparr>"

text \<open>
  What a listing of the stored objects yields. A recursive listing has every object whose
  key starts with the prefix. A listing that is not recursive is delimited by the slash:
  it has the objects whose key has no slash after the prefix, and one entry of size 0
  for each common prefix up to the next slash.
\<close>

definition under_prefix :: "string \<Rightarrow> stored_object list \<Rightarrow> stored_object list" where
  "under_prefix pre objs = filter (\<lambda>obj. strings_HasPrefix (stored_key obj) pre) objs"

definition key_rest :: "string \<Rightarrow> stored_object \<Rightarrow> string" where
  "key_rest pre obj = drop (length pre) (stored_key obj)"

definition list_entries :: "stored_object list \<Rightarrow> ListObjectsOptions \<Rightarrow> ObjectInfo list" where
  "list_entries objs opts =
     (let matching = under_prefix (Prefix opts) objs
      in if Recursive opts then map object_info matching
         else
           map object_info
             (filter (\<lambda>obj. CHR ''/'' \<notin> set (key_rest (Prefix opts) obj)) matching) @
           map (\<lambda>k. \<lparr>Key = k, ObjectSize = 0, LastModified = zero_Time, Err = None\<rparr>)
             (remdups
               (map (\<lambda>obj. Prefix opts
                            @ takeWhile (\<lambda>x. x \<noteq> CHR ''/'') (key_rest (Prefix opts) obj) @ ''/'')
                 (filter (\<lambda>obj. CHR ''/'' \<in> set (key_rest (Prefix opts) obj)) matching))))"

definition ListObjects :: "backend \<Rightarrow> string \<Rightarrow> ListObjectsOptions \<Rightarrow> ObjectInfo list" where
  "ListObjects b bucketName opts =
     (case list_fault b of
        None \<Rightarrow> list_entries (objects b) opts
      | Some (n, e) \<Rightarrow>
          take n (list_entries (objects b) opts) @
          [\<lparr>Key = [], ObjectSize = 0, LastModified = zero_Time, Err = Some e\<rparr>])"

definition RemoveObject :: "backend \<Rightarrow> string \<Rightarrow> string \<Rightarrow> error option \<times> backend" where
  "RemoveObject b bucketName objectName =
     (case remove_fault b objectName of
        Some e \<Rightarrow> (Some e, b)
      | None \<Rightarrow>
          (None, b\<lparr>objects := filter (\<lambda>obj. stored_key obj \<noteq> objectName) (objects b)\<rparr>))"

subsection \<open>Retention\<close>

definition snapshotPrefix :: "Control \<Rightarrow> string" where
  "snapshotPrefix cfg = path_Join [EtcdS3Folder cfg, EtcdSnapshotName cfg]"

text \<open>The first loop of \<^verbatim>\<open>snapshotRetention\<close>: the entries of the listing are appended to
  \<^verbatim>\<open>snapshotFiles\<close>, and the first error ends the function.\<close>

fun collect_entries :: "ObjectInfo list \<Rightarrow> ObjectInfo list \<Rightarrow> error + ObjectInfo list" where
  "collect_entries snapshotFiles [] = Inr snapshotFiles"
| "collect_entries snapshotFiles (info # infos) =
     (case Err info of
        Some err \<Rightarrow> Inl err
      | None \<Rightarrow> collect_entries (snapshotFiles @ [info]) infos)"

text \<open>The second loop: the objects are removed one at a time, and the first failure ends
  the function.\<close>

fun remove_entries :: "backend \<Rightarrow> string \<Rightarrow> ObjectInfo list \<Rightarrow> error option \<times> backend" where
  "remove_entries b bucketName [] = (None, b)"
| "remove_entries b bucketName (df # dfs) =
     (case RemoveObject b bucketName (Key df) of
        (Some err, b') \<Rightarrow> (Some err, b')
      | (None, b') \<Rightarrow> remove_entries b' bucketName dfs)"

text \<open>The comparison given to \<^verbatim>\<open>sort.Slice\<close>: the first entry is newer than the second.\<close>

definition newer :: "ObjectInfo \<Rightarrow> ObjectInfo \<Rightarrow> bool" where
  "newer a b \<longleftrightarrow> Before (LastModified b) (LastModified a)"

text \<open>
  \<^verbatim>\<open>snapshotRetention\<close>, given \<^verbatim>\<open>sort.Slice\<close>. The library promises a permutation that is
  ordered by the comparison, and nothing on the order of entries that compare equal, so
  the sort is a parameter, and \<open>sorts\<close> states what is promised for one list.
\<close>

definition snapshotRetention ::
  "((ObjectInfo \<Rightarrow> ObjectInfo \<Rightarrow> bool) \<Rightarrow> ObjectInfo list \<Rightarrow> ObjectInfo list) \<Rightarrow>
   Control \<Rightarrow> backend \<Rightarrow> error option \<times> backend" where
  "snapshotRetention sort_Slice cfg b =
     (if EtcdSnapshotRetention cfg < 1 then (None, b)
      else
        (let loo = \<lparr>Prefix = snapshotPrefix cfg, Recursive = True\<rparr>
         in case collect_entries [] (ListObjects b (EtcdS3BucketName cfg) loo) of
              Inl err \<Rightarrow> (Some err, b)
            | Inr snapshotFiles \<Rightarrow>
                if int (length snapshotFiles) \<le> EtcdSnapshotRetention cfg then (None, b)
                else
                  remove_entries b (EtcdS3BucketName cfg)
                    (drop (nat (EtcdSnapshotRetention cfg)) (sort_Slice newer snapshotFiles))))"

definition sorts ::
  "(('a \<Rightarrow> 'a \<Rightarrow> bool) \<Rightarrow> 'a list \<Rightarrow> 'a list) \<Rightarrow> ('a \<Rightarrow> 'a \<Rightarrow> bool) \<Rightarrow> 'a list \<Rightarrow> bool" where
  "sorts sort_Slice lt xs \<longleftrightarrow>
     mset (sort_Slice lt xs) = mset xs \<and>
     sorted_wrt (\<lambda>a b. \<not> lt b a) (sort_Slice lt xs)"

text \<open>An insertion sort, one of the sorts that keep the promise.\<close>

fun insert_by :: "('a \<Rightarrow> 'a \<Rightarrow> bool) \<Rightarrow> 'a \<Rightarrow> 'a list \<Rightarrow> 'a list" where
  "insert_by lt x [] = [x]"
| "insert_by lt x (y # ys) = (if lt y x then y # insert_by lt x ys else x # y # ys)"

definition insertion_sort :: "('a \<Rightarrow> 'a \<Rightarrow> bool) \<Rightarrow> 'a list \<Rightarrow> 'a list" where
  "insertion_sort lt xs = foldr (insert_by lt) xs []"

subsection \<open>Listing\<close>

text \<open>The text after the last hyphen of a name, the whole name when it has no hyphen;
  and a string of decimal digits.\<close>

definition after_last_hyphen :: "string \<Rightarrow> string" where
  "after_last_hyphen s = rev (takeWhile (\<lambda>x. x \<noteq> CHR ''-'') (rev s))"

definition numeric :: "string \<Rightarrow> bool" where
  "numeric s \<longleftrightarrow> s \<noteq> [] \<and> list_all is_digit s"

text \<open>The body of the loop of \<^verbatim>\<open>listSnapshots\<close>: the record made for one object.\<close>

definition listed_snapshot :: "Control \<Rightarrow> ObjectInfo \<Rightarrow> snapshotFile" where
  "listed_snapshot cfg obj =
     (let filename = path_Base (Key obj);
          (basename, compressed) = strings_CutSuffix filename compressedExtension;
          ts = (case ParseInt (drop (nat (strings_LastIndexByte basename (CHR ''-'') + 1)) basename) of
                  Inl err \<Rightarrow> Time_Unix (LastModified obj)
                | Inr n \<Rightarrow> n)
      in \<lparr>Name = filename,
          NodeName = ''s3'',
          CreatedAt = time_Unix ts 0,
          Size = ObjectSize obj,
          S3 = Some \<lparr>Endpoint = EtcdS3Endpoint cfg,
                     EndpointCA = EtcdS3EndpointCA cfg,
                     SkipSSLVerify = EtcdS3SkipSSLVerify cfg,
                     Bucket = EtcdS3BucketName cfg,
                     Region = EtcdS3Region cfg,
                     Folder = EtcdS3Folder cfg,
                     Insecure = EtcdS3Insecure cfg\<rparr>,
          Status = successfulSnapshotStatus,
          Message = [],
          Compressed = compressed,
          metadataSource = None\<rparr>)"

text \<open>
  The loop over the listing. \<^verbatim>\<open>generateSnapshotConfigMapKey\<close> is declared in another file of
  the package and is the parameter \<open>mapKey\<close>.
\<close>

fun list_loop ::
  "(snapshotFile \<Rightarrow> string) \<Rightarrow> Control \<Rightarrow> (string \<rightharpoonup> snapshotFile) \<Rightarrow> ObjectInfo list \<Rightarrow>
   error + (string \<rightharpoonup> snapshotFile)" where
  "list_loop mapKey cfg snapshots [] = Inr snapshots"
| "list_loop mapKey cfg snapshots (obj # objs) =
     (case Err obj of
        Some err \<Rightarrow> Inl err
      | None \<Rightarrow>
          if ObjectSize obj = 0 then list_loop mapKey cfg snapshots objs
          else
            (let sf = listed_snapshot cfg obj
             in list_loop mapKey cfg (snapshots(mapKey sf \<mapsto> sf)) objs))"

text \<open>The options of the listing: the folder as prefix and recursive when a folder is
  configured, and the zero value of the options when it is not.\<close>

definition listSnapshots_options :: "Control \<Rightarrow> ListObjectsOptions" where
  "listSnapshots_options cfg =
     (if EtcdS3Folder cfg \<noteq> [] then \<lparr>Prefix = EtcdS3Folder cfg, Recursive = True\<rparr>
      else \<lparr>Prefix = [], Recursive = False\<rparr>)"

definition listSnapshots ::
  "(snapshotFile \<Rightarrow> string) \<Rightarrow> Control \<Rightarrow> backend \<Rightarrow> error + (string \<rightharpoonup> snapshotFile)" where
  "listSnapshots mapKey cfg b =
     list_loop mapKey cfg Map.empty
       (ListObjects b (EtcdS3BucketName cfg) (listSnapshots_options cfg))"

subsection \<open>Download\<close>

text \<open>
  The object that \<^verbatim>\<open>GetObject\<close> returns: what \<^verbatim>\<open>Stat\<close> answers, the bytes that can be
  read from it, and the error that ends the reading, if any.
\<close>

record Object =
  ObjectStat :: "error + ObjectInfo"
  ObjectData :: string
  ObjectReadErr :: "error option"

text \<open>The local file system: the files by path, with their content and permission bits.\<close>

record local_file =
  content :: string
  mode :: nat

type_synonym filesystem = "string \<rightharpoonup> local_file"

text \<open>
  What \<^verbatim>\<open>Download\<close> calls outside this file: the client's \<^verbatim>\<open>GetObject\<close>, the package's
  \<^verbatim>\<open>snapshotDir\<close> (declared in another file), and the failures of \<^verbatim>\<open>os.Create\<close> and
  \<^verbatim>\<open>os.Chmod\<close>.
\<close>

record download_env =
  GetObject :: "string \<Rightarrow> string \<Rightarrow> error + Object"
  snapshotDir :: "Control \<Rightarrow> bool \<Rightarrow> error + string"
  os_Create_error :: "string \<Rightarrow> error option"
  os_Chmod_error :: "string \<Rightarrow> error option"

definition io_EOF :: error where
  "io_EOF = ErrorsNew ''EOF''"

text \<open>\<^verbatim>\<open>io.CopyN\<close>: the bytes written, and an error when fewer than \<open>n\<close> could be read.\<close>

definition io_CopyN :: "Object \<Rightarrow> int \<Rightarrow> string \<times> error option" where
  "io_CopyN r n =
     (let written = take (nat n) (ObjectData r)
      in if int (length written) < n then
           (written, Some (case ObjectReadErr r of Some err \<Rightarrow> err | None \<Rightarrow> io_EOF))
         else (written, None))"

text \<open>
  \<^verbatim>\<open>Download\<close> returns the error, the handle (whose configuration it updates) and the file
  system afterwards. \<^verbatim>\<open>os.Create\<close> truncates a file that exists and creates one with mode
  0666 otherwise; the final mode is 0600.
\<close>

definition Download :: "download_env \<Rightarrow> S3 \<Rightarrow> filesystem \<Rightarrow> error option \<times> S3 \<times> filesystem" where
  "Download e s fs =
     (let cfg = config s;
          snapshotKey = path_Join [EtcdS3Folder cfg, ClusterResetRestorePath cfg]
      in case GetObject e (EtcdS3BucketName cfg) snapshotKey of
           Inl err \<Rightarrow> (None, s, fs)
         | Inr r \<Rightarrow>
             (case snapshotDir e cfg True of
                Inl err \<Rightarrow> (Some (ErrorsWrap err ''failed to get the snapshot dir''), s, fs)
              | Inr dir \<Rightarrow>
                  (let fullSnapshotPath = filepath_Join [dir, ClusterResetRestorePath cfg]
                   in case os_Create_error e fullSnapshotPath of
                        Some err \<Rightarrow> (Some err, s, fs)
                      | None \<Rightarrow>
                          (let m = (case fs fullSnapshotPath of Some f \<Rightarrow> mode f | None \<Rightarrow> 438);
                               fs1 = fs(fullSnapshotPath \<mapsto> \<lparr>content = [], mode = m\<rparr>)
                           in case ObjectStat r of
                                Inl err \<Rightarrow> (Some err, s, fs1)
                              | Inr stat \<Rightarrow>
                                  (case io_CopyN r (ObjectSize stat) of
                                     (written, res) \<Rightarrow>
                                       (let fs2 = fs1(fullSnapshotPath \<mapsto>
                                                        \<lparr>content = written, mode = m\<rparr>)
                                        in case res of
                                             Some err \<Rightarrow> (Some err, s, fs2)
                                           | None \<Rightarrow>
                                               (let s' = s\<lparr>config := cfg\<lparr>ClusterResetRestorePath :=
                                                              fullSnapshotPath\<rparr>\<rparr>
                                                in case os_Chmod_error e fullSnapshotPath of
                                                     Some err \<Rightarrow> (Some err, s', fs2)
                                                   | None \<Rightarrow>
                                                       (None, s',
                                                        fs2(fullSnapshotPath \<mapsto>
                                                              \<lparr>content = written,
                                                               mode = 384\<rparr>)))))))))"

subsection \<open>Example values\<close>

text \<open>An environment in which one base64 string decodes to a certificate and another
  to bytes that are no certificate, one file holds the certificate, and the bucket
  \<^verbatim>\<open>backups\<close> exists.\<close>

definition example_env :: env where
  "example_env =
     \<lparr>base64_DecodeString = (\<lambda>s. if s = ''Q0VSVA=='' then Inr ''CERT''
                                  else if s = ''SlVOSw=='' then Inr ''JUNK''
                                  else Inl (External ''illegal base64 data'')),
      os_ReadFile = (\<lambda>p. if p = ''/etc/ca.pem'' then Inr ''CERT''
                          else Inl (External ''no such file or directory'')),
      pem_Decode = (\<lambda>b. if b = ''CERT'' then Some ''DER'' else None),
      x509_ParseCertificates = (\<lambda>d. if d = ''DER'' then Inr [''DER'']
                                     else Inl (External ''x509: malformed certificate'')),
      minio_New = (\<lambda>ep opt. Inr \<lparr>ClientEndpoint = ep, ClientOptions = opt\<rparr>),
      BucketExists = (\<lambda>c b. Inr (b = ''backups''))\<rparr>"

definition example_config :: Control where
  "example_config =
     \<lparr>EtcdS3 = True, EtcdS3BucketName = ''backups'', EtcdS3Endpoint = ''s3.example.com'',
      EtcdS3EndpointCA = [], EtcdS3SkipSSLVerify = False, EtcdS3AccessKey = [],
      EtcdS3SecretKey = [], EtcdS3Region = ''us-east-1'', EtcdS3Folder = ''k3s'',
      EtcdS3Insecure = False, EtcdS3Timeout = 300, EtcdSnapshotName = ''etcd-snapshot'',
      EtcdSnapshotRetention = 3, ClusterResetRestorePath = ''etcd-snapshot-node1-1700000000''\<rparr>"

definition example_transport :: Transport where
  "example_transport = \<lparr>TLSClientConfig = None\<rparr>"

text \<open>An \<^verbatim>\<open>FPutObject\<close> that stores 4096 bytes in the bucket \<^verbatim>\<open>backups\<close> and fails for
  every other bucket.\<close>

definition example_put :: "string \<Rightarrow> string \<Rightarrow> string \<Rightarrow> PutObjectOptions \<Rightarrow> error + UploadInfo" where
  "example_put bucket key file opts =
     (if bucket = ''backups'' then Inr \<lparr>UploadSize = 4096\<rparr>
      else Inl (External ''The specified bucket does not exist''))"

text \<open>A download environment in which one key of the bucket exists, and a handle.\<close>

definition example_object :: Object where
  "example_object =
     \<lparr>ObjectStat = Inr \<lparr>Key = ''k3s/etcd-snapshot-node1-1700000000'', ObjectSize = 5,
                         LastModified = 1700000000123456789, Err = None\<rparr>,
      ObjectData = ''bytes'', ObjectReadErr = None\<rparr>"

definition example_download_env :: download_env where
  "example_download_env =
     \<lparr>GetObject = (\<lambda>bucket key.
         if bucket = ''backups'' \<and> key = ''k3s/etcd-snapshot-node1-1700000000''
         then Inr example_object
         else Inl (External ''The specified key does not exist.'')),
      snapshotDir = (\<lambda>cfg create. Inr ''/var/lib/rancher/k3s/server/db/snapshots''),
      os_Create_error = (\<lambda>p. None),
      os_Chmod_error = (\<lambda>p. None)\<rparr>"

text \<open>A client that defers the request, so that the missing key is reported by
  \<^verbatim>\<open>Stat\<close>; and one whose object ends after five of its ten bytes.\<close>

definition deferred_download_env :: download_env where
  "deferred_download_env =
     \<lparr>GetObject = (\<lambda>bucket key.
         Inr \<lparr>ObjectStat = Inl (External ''The specified key does not exist.''),
              ObjectData = [],
              ObjectReadErr = Some (External ''The specified key does not exist.'')\<rparr>),
      snapshotDir = (\<lambda>cfg create. Inr ''/var/lib/rancher/k3s/server/db/snapshots''),
      os_Create_error = (\<lambda>p. None),
      os_Chmod_error = (\<lambda>p. None)\<rparr>"

definition truncated_download_env :: download_env where
  "truncated_download_env =
     \<lparr>GetObject = (\<lambda>bucket key.
         Inr \<lparr>ObjectStat = Inr \<lparr>Key = key, ObjectSize = 10,
                                 LastModified = 1700000000123456789, Err = None\<rparr>,
              ObjectData = ''bytes'',
              ObjectReadErr = Some (External ''connection reset by peer'')\<rparr>),
      snapshotDir = (\<lambda>cfg create. Inr ''/var/lib/rancher/k3s/server/db/snapshots''),
      os_Create_error = (\<lambda>p. None),
      os_Chmod_error = (\<lambda>p. None)\<rparr>"

definition example_handle :: S3 where
  "example_handle =
     \<lparr>config = example_config,
      client = \<lparr>ClientEndpoint = ''s3.example.com'',
                ClientOptions = \<lparr>Creds = NewIAM [], Secure = True, OptRegion = ''us-east-1'',
                                 OptTransport = example_transport,
                                 BucketLookup = BucketLookupAuto\<rparr>\<rparr>\<rparr>"

text \<open>A bucket with four snapshots and an empty object under the folder \<^verbatim>\<open>k3s\<close>, the
  entries that a listing yields for the snapshots, and a bucket with one snapshot and
  an empty folder marker.\<close>

definition example_backend :: backend where
  "example_backend =
     \<lparr>objects =
        [\<lparr>stored_key = ''k3s/etcd-snapshot-node1-1700000000'', stored_size = 4096,
          stored_modified = 1700000001123456789\<rparr>,
         \<lparr>stored_key = ''k3s/etcd-snapshot-node1-1700003600.zip'', stored_size = 2048,
          stored_modified = 1700003601000000000\<rparr>,
         \<lparr>stored_key = ''k3s/on-demand-node1'', stored_size = 1024,
          stored_modified = 1700007200500000000\<rparr>,
         \<lparr>stored_key = ''k3s/etcd-snapshot-node1-9223372036854775808'', stored_size = 512,
          stored_modified = 1700010800250000000\<rparr>,
         \<lparr>stored_key = ''k3s/empty-1700000000'', stored_size = 0,
          stored_modified = 1700000000000000000\<rparr>],
      list_fault = None,
      remove_fault = (\<lambda>key. None)\<rparr>"

definition example_plain_entry :: ObjectInfo where
  "example_plain_entry =
     \<lparr>Key = ''k3s/etcd-snapshot-node1-1700000000'', ObjectSize = 4096,
      LastModified = 1700000001123456789, Err = None\<rparr>"

definition example_zip_entry :: ObjectInfo where
  "example_zip_entry =
     \<lparr>Key = ''k3s/etcd-snapshot-node1-1700003600.zip'', ObjectSize = 2048,
      LastModified = 1700003601000000000, Err = None\<rparr>"

definition example_named_entry :: ObjectInfo where
  "example_named_entry =
     \<lparr>Key = ''k3s/on-demand-node1'', ObjectSize = 1024,
      LastModified = 1700007200500000000, Err = None\<rparr>"

definition example_overflow_entry :: ObjectInfo where
  "example_overflow_entry =
     \<lparr>Key = ''k3s/etcd-snapshot-node1-9223372036854775808'', ObjectSize = 512,
      LastModified = 1700010800250000000, Err = None\<rparr>"

definition small_backend :: backend where
  "small_backend =
     \<lparr>objects =
        [\<lparr>stored_key = ''k3s/etcd-snapshot-node1-1700000000'', stored_size = 4096,
          stored_modified = 1700000001123456789\<rparr>,
         \<lparr>stored_key = ''k3s/'', stored_size = 0, stored_modified = 1690000000000000000\<rparr>],
      list_fault = None,
      remove_fault = (\<lambda>key. None)\<rparr>"

text \<open>A bucket with five snapshots under the snapshot prefix, stored at five different
  times, and one object that is not under the prefix.\<close>

definition retention_backend :: backend where
  "retention_backend =
     \<lparr>objects =
        [\<lparr>stored_key = ''k3s/etcd-snapshot-node1-1700010800'', stored_size = 4096,
          stored_modified = 1700010800000000000\<rparr>,
         \<lparr>stored_key = ''k3s/etcd-snapshot-node1-1700000000'', stored_size = 4096,
          stored_modified = 1700000000000000000\<rparr>,
         \<lparr>stored_key = ''k3s/on-demand-node1-1690000000'', stored_size = 4096,
          stored_modified = 1690000000000000000\<rparr>,
         \<lparr>stored_key = ''k3s/etcd-snapshot-node1-1700014400'', stored_size = 4096,
          stored_modified = 1700014400000000000\<rparr>,
         \<lparr>stored_key = ''k3s/etcd-snapshot-node1-1700003600'', stored_size = 4096,
          stored_modified = 1700003600000000000\<rparr>,
         \<lparr>stored_key = ''k3s/etcd-snapshot-node1-1700007200'', stored_size = 4096,
          stored_modified = 1700007200000000000\<rparr>],
      list_fault = None,
      remove_fault = (\<lambda>key. None)\<rparr>"

section \<open>Properties\<close>

subsection \<open>Strings\<close>

lemma strings_Contains_iff:
  "strings_Contains s sub \<longleftrightarrow> (\<exists>p q. s = p @ sub @ q)"
proof (induction s)
  case Nil
  then show ?case by auto
next
  case (Cons c cs)
  have pre: "strings_HasPrefix (c # cs) sub \<longleftrightarrow> (\<exists>q. c # cs = sub @ q)"
    unfolding strings_HasPrefix_def
    by (metis append_eq_conv_conj append_take_drop_id length_append le_add1)
  show ?case
  proof
    assume "strings_Contains (c # cs) sub"
    then consider "strings_HasPrefix (c # cs) sub" | "strings_Contains cs sub" by auto
    then show "\<exists>p q. c # cs = p @ sub @ q"
    proof cases
      case 1
      then obtain q where "c # cs = [] @ sub @ q" using pre by auto
      then show ?thesis by blast
    next
      case 2
      then obtain p q where "cs = p @ sub @ q" using Cons.IH by auto
      then have "c # cs = (c # p) @ sub @ q" by simp
      then show ?thesis by blast
    qed
  next
    assume "\<exists>p q. c # cs = p @ sub @ q"
    then obtain p q where pq: "c # cs = p @ sub @ q" by auto
    show "strings_Contains (c # cs) sub"
    proof (cases p)
      case Nil
      then have "\<exists>q. c # cs = sub @ q" using pq by auto
      then have "strings_HasPrefix (c # cs) sub" using pre by blast
      then show ?thesis by simp
    next
      case (Cons a p')
      then have "cs = p' @ sub @ q" using pq by simp
      then show ?thesis using Cons.IH by auto
    qed
  qed
qed

subsection \<open>Paths\<close>

lemma hd_notin: "s \<noteq> [] \<Longrightarrow> c \<notin> set s \<Longrightarrow> hd s \<noteq> c"
  by (cases s) auto

lemma LastIndexByte_notin: "c \<notin> set s \<Longrightarrow> strings_LastIndexByte s c = -1"
  by (induction s) (auto simp: Let_def)

lemma LastIndexByte_last:
  "c \<notin> set q \<Longrightarrow> strings_LastIndexByte (p @ c # q) c = int (length p)"
  by (induction p) (auto simp: Let_def LastIndexByte_notin)

lemma strip_trailing_slashes_id:
  "s \<noteq> [] \<Longrightarrow> last s \<noteq> CHR ''/'' \<Longrightarrow> strip_trailing_slashes s = s"
  unfolding strip_trailing_slashes_def
  by (cases s rule: rev_cases) auto

lemma path_Base_dir_name:
  assumes "name \<noteq> []" "CHR ''/'' \<notin> set name"
  shows "path_Base (dir @ ''/'' @ name) = name"
proof -
  let ?p = "dir @ CHR ''/'' # name"
  have l: "last ?p \<noteq> CHR ''/''" using assms by (auto dest: last_in_set)
  have s: "strip_trailing_slashes ?p = ?p" using assms l by (intro strip_trailing_slashes_id) auto
  have i: "strings_LastIndexByte ?p (CHR ''/'') = int (length dir)"
    using LastIndexByte_last [OF assms(2), of dir] by simp
  show ?thesis using assms by (simp add: path_Base_def s i Let_def nat_add_distrib)
qed

lemma path_Base_plain:
  assumes "name \<noteq> []" "CHR ''/'' \<notin> set name"
  shows "path_Base name = name"
proof -
  have l: "last name \<noteq> CHR ''/''" using assms by (metis last_in_set)
  have s: "strip_trailing_slashes name = name" using assms l by (intro strip_trailing_slashes_id) auto
  show ?thesis using assms by (simp add: path_Base_def s LastIndexByte_notin Let_def)
qed

lemma takeWhile_elem:
  "CHR ''/'' \<notin> set n \<Longrightarrow> rest = [] \<or> hd rest = CHR ''/'' \<Longrightarrow>
   takeWhile (\<lambda>x. x \<noteq> CHR ''/'') (n @ rest) = n \<and> dropWhile (\<lambda>x. x \<noteq> CHR ''/'') (n @ rest) = rest"
proof (induction n)
  case Nil
  then show ?case by (cases rest) auto
next
  case (Cons a n)
  then show ?case by auto
qed

lemma Clean_loop_elem:
  assumes "simple_elem n" "rest = [] \<or> hd rest = CHR ''/''"
  shows "Clean_loop False 0 out (n @ rest) =
         Clean_loop False 0 ((if out \<noteq> [] then out @ ''/'' else out) @ n) rest"
proof -
  obtain c n' where n: "n = c # n'" using assms(1) by (cases n) (auto simp: simple_elem_def)
  have c: "c \<noteq> CHR ''/''" and n': "CHR ''/'' \<notin> set n'" using assms(1) n by (auto simp: simple_elem_def)
  have tw: "takeWhile (\<lambda>x. x \<noteq> CHR ''/'') (c # n' @ rest) = n"
       "dropWhile (\<lambda>x. x \<noteq> CHR ''/'') (c # n' @ rest) = rest"
    using takeWhile_elem [of n rest] assms n by (auto simp: simple_elem_def)
  have b2: "\<not> (c = CHR ''.'' \<and> (n' @ rest = [] \<or> hd (n' @ rest) = CHR ''/''))"
  proof
    assume a: "c = CHR ''.'' \<and> (n' @ rest = [] \<or> hd (n' @ rest) = CHR ''/'')"
    have "n' = []"
    proof (rule ccontr)
      assume "n' \<noteq> []"
      then have "hd (n' @ rest) = hd n'" "hd n' \<noteq> CHR ''/''" using n' by (auto dest: hd_notin)
      then show False using a \<open>n' \<noteq> []\<close> by auto
    qed
    then show False using a n assms(1) by (simp add: simple_elem_def)
  qed
  have b3: "\<not> (c = CHR ''.'' \<and> hd (n' @ rest) = CHR ''.'' \<and>
               (tl (n' @ rest) = [] \<or> hd (tl (n' @ rest)) = CHR ''/''))"
  proof
    assume a: "c = CHR ''.'' \<and> hd (n' @ rest) = CHR ''.'' \<and>
               (tl (n' @ rest) = [] \<or> hd (tl (n' @ rest)) = CHR ''/'')"
    have ne: "n' \<noteq> []"
    proof
      assume "n' = []"
      then show False using b2 a assms(2) by auto
    qed
    then obtain d n'' where n'': "n' = d # n''" by (cases n') auto
    have d: "d = CHR ''.''" using a n'' by simp
    have "n'' = []"
    proof (rule ccontr)
      assume "n'' \<noteq> []"
      then have "hd (n'' @ rest) = hd n''" "hd n'' \<noteq> CHR ''/''" "n'' @ rest \<noteq> []"
        using n' n'' by (auto dest: hd_notin)
      then show False using a n'' by auto
    qed
    then show False using a n n'' d assms(1) by (simp add: simple_elem_def)
  qed
  show ?thesis
    unfolding n append_Cons
    apply (subst Clean_loop.simps(2))
    apply (simp only: if_not_P [OF c] if_not_P [OF b2] if_not_P [OF b3] tw)
    apply (simp add: Let_def n)
    done
qed

lemma Clean_loop_join_slash:
  "es \<noteq> [] \<Longrightarrow> list_all simple_elem es \<Longrightarrow>
   Clean_loop False 0 out (join_slash es) = (if out \<noteq> [] then out @ ''/'' else out) @ join_slash es"
proof (induction es arbitrary: out rule: join_slash.induct)
  case 1
  then show ?case by simp
next
  case (2 e)
  then show ?case using Clean_loop_elem [of e "[]" out] by (simp add: Clean_loop.simps(1))
next
  case (3 e v va)
  have "Clean_loop False 0 out (e @ ''/'' @ join_slash (v # va)) =
        Clean_loop False 0 ((if out \<noteq> [] then out @ ''/'' else out) @ e) (''/'' @ join_slash (v # va))"
    using 3 Clean_loop_elem [of e "''/'' @ join_slash (v # va)" out] by simp
  also have "\<dots> = Clean_loop False 0 ((if out \<noteq> [] then out @ ''/'' else out) @ e) (join_slash (v # va))"
    by (simp add: Clean_loop.simps(2))
  also have "\<dots> = ((if out \<noteq> [] then out @ ''/'' else out) @ e) @ ''/'' @ join_slash (v # va)"
    using 3 by (simp add: simple_elem_def)
  finally show ?case by simp
qed

lemma join_slash_snoc:
  "es \<noteq> [] \<Longrightarrow> join_slash (es @ [n]) = join_slash es @ ''/'' @ n"
  by (induction es rule: join_slash.induct) auto

lemma join_slash_nonempty:
  "es \<noteq> [] \<Longrightarrow> list_all simple_elem es \<Longrightarrow> join_slash es \<noteq> [] \<and> hd (join_slash es) \<noteq> CHR ''/''"
  by (induction es rule: join_slash.induct) (auto simp: simple_elem_def dest: hd_notin)

lemma path_Join_clean_folder:
  assumes "es \<noteq> []" "list_all simple_elem es" "simple_elem n"
  shows "path_Join [join_slash es, n] = join_slash es @ ''/'' @ n"
proof -
  have ne: "join_slash es \<noteq> []" "hd (join_slash es) \<noteq> CHR ''/''"
    using join_slash_nonempty assms by auto
  have "Clean_loop False 0 [] (join_slash (es @ [n])) = join_slash (es @ [n])"
    using Clean_loop_join_slash [of "es @ [n]" "[]"] assms by simp
  then have c: "Clean_loop False 0 [] (join_slash es @ CHR ''/'' # n) = join_slash es @ CHR ''/'' # n"
    using assms(1) by (simp add: join_slash_snoc)
  show ?thesis
    using ne by (simp add: path_Join_def path_Clean_def c Let_def)
qed

lemma path_Join_empty_folder:
  assumes "simple_elem n"
  shows "path_Join [[], n] = n"
proof -
  have c: "Clean_loop False 0 [] n = n"
    using Clean_loop_join_slash [of "[n]" "[]"] assms by simp
  have "n \<noteq> []" "hd n \<noteq> CHR ''/''" using assms by (auto simp: simple_elem_def dest: hd_notin)
  then show ?thesis by (simp add: path_Join_def path_Clean_def c Let_def)
qed

lemma HasSuffix_iff: "strings_HasSuffix s suf \<longleftrightarrow> (\<exists>p. s = p @ suf)"
  unfolding strings_HasSuffix_def
  by (metis append_eq_conv_conj append_take_drop_id diff_add_inverse2 le_add2 length_append)

lemma HasSuffix_Base:
  assumes "snapshot \<noteq> []" "last snapshot \<noteq> CHR ''/''" "CHR ''/'' \<notin> set ext"
  shows "strings_HasSuffix (filepath_Base snapshot) ext = strings_HasSuffix snapshot ext"
proof (cases "CHR ''/'' \<in> set snapshot")
  case False
  then show ?thesis using assms by (simp add: filepath_Base_def path_Base_plain)
next
  case True
  then obtain dir name where sn: "snapshot = dir @ CHR ''/'' # name" "CHR ''/'' \<notin> set name"
    using split_list_last by fastforce
  have nm: "name \<noteq> []" using sn assms(2) by auto
  have b: "filepath_Base snapshot = name"
    using path_Base_dir_name [OF nm sn(2), of dir] sn by (simp add: filepath_Base_def)
  have "(\<exists>p. dir @ CHR ''/'' # name = p @ ext) \<longleftrightarrow> (\<exists>p. name = p @ ext)"
  proof
    assume "\<exists>p. dir @ CHR ''/'' # name = p @ ext"
    then obtain p where p: "dir @ CHR ''/'' # name = p @ ext" by auto
    then consider u where "dir = p @ u" "u @ CHR ''/'' # name = ext"
      | u where "dir @ u = p" "CHR ''/'' # name = u @ ext"
      by (auto simp: append_eq_append_conv2)
    then show "\<exists>p. name = p @ ext"
    proof cases
      case 1
      then have "CHR ''/'' \<in> set ext" by auto
      then show ?thesis using assms(3) by simp
    next
      case 2
      show ?thesis
      proof (cases u)
        case Nil
        then have "CHR ''/'' \<in> set ext" using 2 by (metis append_Nil list.set_intros(1))
        then show ?thesis using assms(3) by simp
      next
        case (Cons a u')
        then have "name = u' @ ext" using 2 by simp
        then show ?thesis by blast
      qed
    qed
  next
    assume "\<exists>p. name = p @ ext"
    then obtain p where "name = p @ ext" by auto
    then have "dir @ CHR ''/'' # name = (dir @ CHR ''/'' # p) @ ext" by simp
    then show "\<exists>p. dir @ CHR ''/'' # name = p @ ext" by blast
  qed
  then show ?thesis using b sn by (simp add: HasSuffix_iff)
qed

subsection \<open>Bucket addressing mode\<close>

text \<open>
  C9, as the code has it: the mode is chosen by a substring match on the endpoint alone.
  An endpoint that contains \<^verbatim>\<open>aliyun\<close> anywhere selects \<^verbatim>\<open>BucketLookupDNS\<close>, the
  virtual-host (DNS) style; every other endpoint selects automatic detection. Path style
  is never selected.
\<close>

theorem bucketLookupType_substring:
  "bucketLookupType endpoint =
     (if \<exists>p q. endpoint = p @ ''aliyun'' @ q then BucketLookupDNS else BucketLookupAuto) \<and>
   bucketLookupType endpoint \<noteq> BucketLookupPath"
  by (simp add: bucketLookupType_def strings_Contains_iff)

text \<open>
  C9 with path style as the mode selected fails: \<^verbatim>\<open>oss.aliyun.com\<close> contains the
  vendor's substring, and the mode selected for it is the virtual-host style, not the
  path style.
\<close>

theorem bucketLookupType_not_path_style:
  "strings_Contains ''oss.aliyun.com'' ''aliyun'' \<and>
   bucketLookupType ''oss.aliyun.com'' = BucketLookupDNS \<and>
   bucketLookupType ''oss.aliyun.com'' \<noteq> BucketLookupPath"
  by (simp add: bucketLookupType_def strings_HasPrefix_def)

subsection \<open>Construction of the handle\<close>

text \<open>
  C3: for every configuration with an empty bucket name, \<^verbatim>\<open>NewS3\<close> returns the error
  \<^verbatim>\<open>s3 bucket name was not set\<close> and no handle; the default transport is as it was
  and no call to the file system, the client library or the network has been made,
  whatever the environment.
\<close>

theorem NewS3_empty_bucket_name:
  "EtcdS3BucketName cfg = [] \<Longrightarrow>
   NewS3 e cfg tr = (Inl (ErrorsNew ''s3 bucket name was not set''), tr, [])"
  by (simp add: NewS3_def)


text \<open>The theorem at a configuration whose bucket name is empty.\<close>

theorem NewS3_empty_bucket_name_witness:
  "EtcdS3BucketName (example_config\<lparr>EtcdS3BucketName := []\<rparr>) = [] \<and>
   NewS3 example_env (example_config\<lparr>EtcdS3BucketName := []\<rparr>) example_transport
     = (Inl (ErrorsNew ''s3 bucket name was not set''), example_transport, [])"
  using NewS3_empty_bucket_name [of "example_config\<lparr>EtcdS3BucketName := []\<rparr>" example_env example_transport]
  by simp

text \<open>
  C10: when no custom CA is configured, the default transport after \<^verbatim>\<open>NewS3\<close> has a
  TLS configuration that skips verification if the EtcdS3 flag and the skip-verify flag
  are both set (and the bucket name is there), and is the transport as it was before
  in every other case: in particular with the skip-verify flag set and the EtcdS3 flag
  unset.
\<close>

theorem NewS3_skip_verify:
  "EtcdS3EndpointCA cfg = [] \<Longrightarrow>
   fst (snd (NewS3 e cfg tr)) =
     (if EtcdS3BucketName cfg \<noteq> [] \<and> EtcdS3 cfg \<and> EtcdS3SkipSSLVerify cfg
      then tr\<lparr>TLSClientConfig := Some \<lparr>RootCAs = None, InsecureSkipVerify = True\<rparr>\<rparr>
      else tr)"
  by (simp add: NewS3_def Let_def split: sum.splits)


text \<open>The theorem with the skip-verify flag alone, and with both flags.\<close>

theorem NewS3_skip_verify_witness:
  "EtcdS3EndpointCA (example_config\<lparr>EtcdS3 := False, EtcdS3SkipSSLVerify := True\<rparr>) = [] \<and>
   fst (snd (NewS3 example_env (example_config\<lparr>EtcdS3 := False, EtcdS3SkipSSLVerify := True\<rparr>)
               example_transport)) = example_transport \<and>
   EtcdS3EndpointCA (example_config\<lparr>EtcdS3SkipSSLVerify := True\<rparr>) = [] \<and>
   fst (snd (NewS3 example_env (example_config\<lparr>EtcdS3SkipSSLVerify := True\<rparr>) example_transport))
     = \<lparr>TLSClientConfig = Some \<lparr>RootCAs = None, InsecureSkipVerify = True\<rparr>\<rparr>"
  using NewS3_skip_verify [of "example_config\<lparr>EtcdS3 := False, EtcdS3SkipSSLVerify := True\<rparr>"
                              example_env example_transport]
        NewS3_skip_verify [of "example_config\<lparr>EtcdS3SkipSSLVerify := True\<rparr>"
                              example_env example_transport]
  by (simp add: example_config_def example_transport_def)

text \<open>
  C4: the custom CA is decoded as base64 first, and read as a file path when that fails.
  When the bytes obtained hold a PEM block that parses as certificates, the CA stage
  raises no error: the transport trusts a pool made of these bytes and construction goes
  on to the client. When the bytes hold no PEM block, or a block that does not parse,
  construction fails with the error \<^verbatim>\<open>endpoint-ca is not a valid x509 certificate\<close> and
  the transport is left as it was.
\<close>

theorem endpoint_ca_validation:
  "(base64_DecodeString e s = Inr b \<longrightarrow> readS3EndpointCA e s = (Inr b, [])) \<and>
   (base64_DecodeString e s = Inl err \<longrightarrow>
      readS3EndpointCA e s = (os_ReadFile e s, [ReadFileCall s])) \<and>
   (EtcdS3BucketName cfg \<noteq> [] \<and> EtcdS3EndpointCA cfg \<noteq> [] \<and>
    readS3EndpointCA e (EtcdS3EndpointCA cfg) = (Inr ca, cs) \<longrightarrow>
      ((\<exists>p certs. pem_Decode e ca = Some p \<and> x509_ParseCertificates e p = Inr certs) \<longrightarrow>
         setTransportCA e tr (EtcdS3EndpointCA cfg) (EtcdS3SkipSSLVerify cfg) =
           ((tr\<lparr>TLSClientConfig :=
                   Some \<lparr>RootCAs = Some [ca],
                         InsecureSkipVerify = EtcdS3SkipSSLVerify cfg\<rparr>\<rparr>, None), cs) \<and>
         (\<exists>opt. MinioNewCall (EtcdS3Endpoint cfg) opt \<in> set (snd (snd (NewS3 e cfg tr))))) \<and>
      (pem_Decode e ca = None \<or>
       (\<exists>p err. pem_Decode e ca = Some p \<and> x509_ParseCertificates e p = Inl err) \<longrightarrow>
         NewS3 e cfg tr =
           (Inl (ErrorsNew ''endpoint-ca is not a valid x509 certificate''), tr, cs)))"
  by (auto simp: readS3EndpointCA_def setTransportCA_def isValidCertificate_def NewS3_def Let_def
           split: sum.splits option.splits)

text \<open>The theorem at a base64 value that is a certificate, at a file path, and at a
  base64 value that is no certificate.\<close>

theorem endpoint_ca_validation_witness:
  "base64_DecodeString example_env ''Q0VSVA=='' = Inr ''CERT'' \<and>
   readS3EndpointCA example_env ''Q0VSVA=='' = (Inr ''CERT'', []) \<and>
   base64_DecodeString example_env ''/etc/ca.pem'' = Inl (External ''illegal base64 data'') \<and>
   readS3EndpointCA example_env ''/etc/ca.pem'' = (Inr ''CERT'', [ReadFileCall ''/etc/ca.pem'']) \<and>
   pem_Decode example_env ''CERT'' = Some ''DER'' \<and>
   x509_ParseCertificates example_env ''DER'' = Inr [''DER''] \<and>
   setTransportCA example_env example_transport ''Q0VSVA=='' False =
     ((\<lparr>TLSClientConfig = Some \<lparr>RootCAs = Some [''CERT''], InsecureSkipVerify = False\<rparr>\<rparr>,
       None), []) \<and>
   (\<exists>opt. MinioNewCall ''s3.example.com'' opt \<in>
      set (snd (snd (NewS3 example_env (example_config\<lparr>EtcdS3EndpointCA := ''Q0VSVA==''\<rparr>)
                       example_transport)))) \<and>
   pem_Decode example_env ''JUNK'' = None \<and>
   NewS3 example_env (example_config\<lparr>EtcdS3EndpointCA := ''SlVOSw==''\<rparr>) example_transport =
     (Inl (ErrorsNew ''endpoint-ca is not a valid x509 certificate''), example_transport, [])"
proof -
  have d1: "base64_DecodeString example_env ''Q0VSVA=='' = Inr ''CERT''"
    and d2: "base64_DecodeString example_env ''/etc/ca.pem'' = Inl (External ''illegal base64 data'')"
    and d3: "base64_DecodeString example_env ''SlVOSw=='' = Inr ''JUNK''"
    and f: "os_ReadFile example_env ''/etc/ca.pem'' = Inr ''CERT''"
    and p1: "pem_Decode example_env ''CERT'' = Some ''DER''"
    and p2: "pem_Decode example_env ''JUNK'' = None"
    and x: "x509_ParseCertificates example_env ''DER'' = Inr [''DER'']"
    by (simp_all add: example_env_def)
  have c: "EtcdS3BucketName example_config = ''backups''"
    "EtcdS3Endpoint example_config = ''s3.example.com''"
    "EtcdS3SkipSSLVerify example_config = False"
    by (simp_all add: example_config_def)
  note valid = endpoint_ca_validation
    [where e = example_env and s = "''Q0VSVA==''" and b = "''CERT''" and ca = "''CERT''"
       and cs = "[]" and cfg = "example_config\<lparr>EtcdS3EndpointCA := ''Q0VSVA==''\<rparr>"
       and tr = example_transport]
  note path = endpoint_ca_validation
    [where e = example_env and s = "''/etc/ca.pem''" and err = "External ''illegal base64 data''"
       and ca = "''JUNK''" and cs = "[]"
       and cfg = "example_config\<lparr>EtcdS3EndpointCA := ''SlVOSw==''\<rparr>"
       and tr = example_transport]
  have r1: "readS3EndpointCA example_env ''Q0VSVA=='' = (Inr ''CERT'', [])"
    using valid d1 by blast
  have r2: "readS3EndpointCA example_env ''/etc/ca.pem'' = (Inr ''CERT'', [ReadFileCall ''/etc/ca.pem''])"
    using path d2 f by simp
  have r3: "readS3EndpointCA example_env ''SlVOSw=='' = (Inr ''JUNK'', [])"
    by (simp add: readS3EndpointCA_def d3)
  have v: "setTransportCA example_env example_transport ''Q0VSVA=='' False =
     ((\<lparr>TLSClientConfig = Some \<lparr>RootCAs = Some [''CERT''], InsecureSkipVerify = False\<rparr>\<rparr>,
       None), []) \<and>
   (\<exists>opt. MinioNewCall ''s3.example.com'' opt \<in>
      set (snd (snd (NewS3 example_env (example_config\<lparr>EtcdS3EndpointCA := ''Q0VSVA==''\<rparr>)
                       example_transport))))"
    using valid r1 p1 x c by (simp add: example_transport_def)
  have i: "NewS3 example_env (example_config\<lparr>EtcdS3EndpointCA := ''SlVOSw==''\<rparr>) example_transport =
     (Inl (ErrorsNew ''endpoint-ca is not a valid x509 certificate''), example_transport, [])"
    using path r3 p2 c by simp
  show ?thesis using d1 d2 r1 r2 p1 p2 x v i by blast
qed

subsection \<open>Upload\<close>

text \<open>
  C5: \<^verbatim>\<open>upload\<close> makes one call of \<^verbatim>\<open>FPutObject\<close>, for the configured bucket and the
  local file. When the call fails, the record has the status failed, its message is the
  standard base64 encoding of the error's text, and the error is returned with the
  record. When the call succeeds, the record has the status success and the size that
  the call reported, and no error is returned.
\<close>

theorem upload_outcome:
  "(case upload FPutObject cfg snapshot extraMetadata now of
      (sf, res, calls) \<Rightarrow>
        (\<exists>bucket key file opts.
           calls = [(bucket, key, file, opts)] \<and>
           bucket = EtcdS3BucketName cfg \<and> file = snapshot \<and>
           (case FPutObject bucket key file opts of
              Inl err \<Rightarrow>
                Status sf = failedSnapshotStatus \<and>
                Message sf = base64_EncodeToString (Error err) \<and>
                res = Some err
            | Inr uploadInfo \<Rightarrow>
                Status sf = successfulSnapshotStatus \<and>
                Size sf = UploadSize uploadInfo \<and>
                res = None)))"
  by (simp add: upload_def Let_def split: sum.splits prod.splits)

lemma example_message:
  "base64_EncodeToString ''The specified bucket does not exist''
     = ''VGhlIHNwZWNpZmllZCBidWNrZXQgZG9lcyBub3QgZXhpc3Q=''"
  by code_simp

text \<open>The theorem at an upload that succeeds and at one that fails.\<close>

theorem upload_outcome_witness:
  "(case upload example_put example_config ''/var/lib/snapshots/snapshot-20240101.zip'' None 0 of
      (sf, res, calls) \<Rightarrow>
        Status sf = successfulSnapshotStatus \<and> Size sf = 4096 \<and> res = None) \<and>
   (case upload example_put (example_config\<lparr>EtcdS3BucketName := ''missing''\<rparr>)
           ''/var/lib/snapshots/snapshot-20240101.zip'' None 0 of
      (sf, res, calls) \<Rightarrow>
        Status sf = failedSnapshotStatus \<and>
        Message sf = ''VGhlIHNwZWNpZmllZCBidWNrZXQgZG9lcyBub3QgZXhpc3Q='' \<and>
        res = Some (External ''The specified bucket does not exist''))"
  using upload_outcome [where FPutObject = example_put and cfg = example_config
          and snapshot = "''/var/lib/snapshots/snapshot-20240101.zip''"
          and extraMetadata = None and now = 0]
        upload_outcome [where FPutObject = example_put
          and cfg = "example_config\<lparr>EtcdS3BucketName := ''missing''\<rparr>"
          and snapshot = "''/var/lib/snapshots/snapshot-20240101.zip''"
          and extraMetadata = None and now = 0]
  by (auto simp: example_put_def example_message example_config_def split: prod.splits if_splits)

text \<open>
  C6: the object key passed to \<^verbatim>\<open>FPutObject\<close> is \<^verbatim>\<open>path.Join\<close> of the folder and the
  base name of the local file, which is also the record's name. The record is compressed
  and the content type is \<^verbatim>\<open>application/zip\<close> when the local path ends with the
  compressed extension, and the content type is \<^verbatim>\<open>application/octet-stream\<close> otherwise;
  for a path that does not end with a slash this is the suffix of the base name. For a
  folder of plain elements and a file \<open>name\<close> in a directory, the key is the folder, a
  slash and \<open>name\<close>.
\<close>

theorem upload_key_and_type:
  "snd (snd (upload FPutObject cfg snapshot extraMetadata now)) =
     [(EtcdS3BucketName cfg,
       path_Join [EtcdS3Folder cfg, filepath_Base snapshot],
       snapshot,
       \<lparr>NumThreads = 2,
        ContentType = (if strings_HasSuffix snapshot compressedExtension
                       then ''application/zip'' else ''application/octet-stream'')\<rparr>)] \<and>
   Name (fst (upload FPutObject cfg snapshot extraMetadata now)) = filepath_Base snapshot \<and>
   Compressed (fst (upload FPutObject cfg snapshot extraMetadata now)) =
     strings_HasSuffix snapshot compressedExtension \<and>
   (snapshot \<noteq> [] \<and> last snapshot \<noteq> CHR ''/'' \<longrightarrow>
      Compressed (fst (upload FPutObject cfg snapshot extraMetadata now)) =
        strings_HasSuffix (filepath_Base snapshot) compressedExtension) \<and>
   (EtcdS3Folder cfg = join_slash es \<and> es \<noteq> [] \<and> list_all simple_elem es \<and>
    snapshot = dir @ ''/'' @ name \<and> simple_elem name \<longrightarrow>
      path_Join [EtcdS3Folder cfg, filepath_Base snapshot] = EtcdS3Folder cfg @ ''/'' @ name)"
proof -
  have 1: "snd (snd (upload FPutObject cfg snapshot extraMetadata now)) =
     [(EtcdS3BucketName cfg,
       path_Join [EtcdS3Folder cfg, filepath_Base snapshot],
       snapshot,
       \<lparr>NumThreads = 2,
        ContentType = (if strings_HasSuffix snapshot compressedExtension
                       then ''application/zip'' else ''application/octet-stream'')\<rparr>)]"
    by (simp add: upload_def Let_def split: sum.splits prod.splits)
  have 2: "Name (fst (upload FPutObject cfg snapshot extraMetadata now)) = filepath_Base snapshot"
    by (simp add: upload_def Let_def split: sum.splits prod.splits)
  have 3: "Compressed (fst (upload FPutObject cfg snapshot extraMetadata now)) =
     strings_HasSuffix snapshot compressedExtension"
    by (simp add: upload_def Let_def split: sum.splits prod.splits)
  have 4: "strings_HasSuffix (filepath_Base snapshot) compressedExtension =
           strings_HasSuffix snapshot compressedExtension"
    if "snapshot \<noteq> []" "last snapshot \<noteq> CHR ''/''"
    using that by (intro HasSuffix_Base) (simp_all add: compressedExtension_def)
  have 5: "path_Join [EtcdS3Folder cfg, filepath_Base snapshot] = EtcdS3Folder cfg @ ''/'' @ name"
    if "EtcdS3Folder cfg = join_slash es" "es \<noteq> []" "list_all simple_elem es"
       "snapshot = dir @ ''/'' @ name" "simple_elem name"
  proof -
    have "filepath_Base snapshot = name"
      using that path_Base_dir_name [of name dir] by (simp add: filepath_Base_def simple_elem_def)
    then show ?thesis using that path_Join_clean_folder [of es name] by simp
  qed
  show ?thesis using 1 2 3 4 5 by blast
qed

lemma example_path:
  "strings_HasSuffix ''/var/lib/snapshots/snapshot-20240101.zip'' compressedExtension"
  "simple_elem ''k3s''" "simple_elem ''snapshot-20240101.zip''"
  by code_simp+

text \<open>The theorem at the folder \<^verbatim>\<open>k3s\<close> and a file \<^verbatim>\<open>snapshot-20240101.zip\<close>.\<close>

theorem upload_key_and_type_witness:
  "EtcdS3Folder example_config = join_slash [''k3s''] \<and> list_all simple_elem [''k3s''] \<and>
   simple_elem ''snapshot-20240101.zip'' \<and>
   last ''/var/lib/snapshots/snapshot-20240101.zip'' \<noteq> CHR ''/'' \<and>
   snd (snd (upload example_put example_config ''/var/lib/snapshots/snapshot-20240101.zip'' None 0)) =
     [(''backups'', ''k3s/snapshot-20240101.zip'', ''/var/lib/snapshots/snapshot-20240101.zip'',
       \<lparr>NumThreads = 2, ContentType = ''application/zip''\<rparr>)] \<and>
   Name (fst (upload example_put example_config ''/var/lib/snapshots/snapshot-20240101.zip'' None 0))
     = ''snapshot-20240101.zip'' \<and>
   Compressed (fst (upload example_put example_config ''/var/lib/snapshots/snapshot-20240101.zip'' None 0))"
proof -
  have f: "EtcdS3Folder example_config = join_slash [''k3s'']"
    "EtcdS3BucketName example_config = ''backups''"
    by (simp_all add: example_config_def)
  have s: "''/var/lib/snapshots/snapshot-20240101.zip'' = ''/var/lib/snapshots'' @ ''/'' @ ''snapshot-20240101.zip''"
    by simp
  have b: "filepath_Base ''/var/lib/snapshots/snapshot-20240101.zip'' = ''snapshot-20240101.zip''"
    using path_Base_dir_name [of "''snapshot-20240101.zip''" "''/var/lib/snapshots''"]
    by (simp add: filepath_Base_def)
  note u = upload_key_and_type [where FPutObject = example_put and cfg = example_config
      and snapshot = "''/var/lib/snapshots/snapshot-20240101.zip''" and extraMetadata = None
      and now = 0 and es = "[''k3s'']" and dir = "''/var/lib/snapshots''"
      and name = "''snapshot-20240101.zip''"]
  have k: "path_Join [EtcdS3Folder example_config, filepath_Base ''/var/lib/snapshots/snapshot-20240101.zip'']
           = ''k3s/snapshot-20240101.zip''"
    using u f example_path by simp
  show ?thesis using u f b k example_path by simp
qed

subsection \<open>Download\<close>

text \<open>
  C2, as the code has it. When the call of \<^verbatim>\<open>GetObject\<close> for the key (the folder joined
  with the restore path) returns an error, \<^verbatim>\<open>Download\<close> returns no error, and the handle
  and the local file system are as they were: no file has been created. A failure that
  appears after \<^verbatim>\<open>GetObject\<close> has returned an object is returned as the error of
  \<^verbatim>\<open>Download\<close>, and the destination file has been created by then: it is empty when
  \<^verbatim>\<open>Stat\<close> fails, and holds the bytes copied so far when the copy fails.
\<close>

theorem Download_fetch_errors:
  "(GetObject e (EtcdS3BucketName (config s))
      (path_Join [EtcdS3Folder (config s), ClusterResetRestorePath (config s)]) = Inl err \<longrightarrow>
      Download e s fs = (None, s, fs)) \<and>
   (GetObject e (EtcdS3BucketName (config s))
      (path_Join [EtcdS3Folder (config s), ClusterResetRestorePath (config s)]) = Inr r \<and>
    snapshotDir e (config s) True = Inr dir \<and>
    os_Create_error e (filepath_Join [dir, ClusterResetRestorePath (config s)]) = None \<and>
    ObjectStat r = Inl err \<longrightarrow>
      fst (Download e s fs) = Some err \<and>
      snd (snd (Download e s fs)) (filepath_Join [dir, ClusterResetRestorePath (config s)]) =
        Some \<lparr>content = [],
              mode = (case fs (filepath_Join [dir, ClusterResetRestorePath (config s)]) of
                        Some f \<Rightarrow> mode f | None \<Rightarrow> 438)\<rparr>) \<and>
   (GetObject e (EtcdS3BucketName (config s))
      (path_Join [EtcdS3Folder (config s), ClusterResetRestorePath (config s)]) = Inr r \<and>
    snapshotDir e (config s) True = Inr dir \<and>
    os_Create_error e (filepath_Join [dir, ClusterResetRestorePath (config s)]) = None \<and>
    ObjectStat r = Inr stat \<and>
    io_CopyN r (ObjectSize stat) = (written, Some err) \<longrightarrow>
      fst (Download e s fs) = Some err \<and>
      snd (snd (Download e s fs)) (filepath_Join [dir, ClusterResetRestorePath (config s)]) =
        Some \<lparr>content = written,
              mode = (case fs (filepath_Join [dir, ClusterResetRestorePath (config s)]) of
                        Some f \<Rightarrow> mode f | None \<Rightarrow> 438)\<rparr>)"
  by (simp add: Download_def Let_def)

lemma example_keys:
  "path_Join [''k3s'', ''etcd-snapshot-node2-1600000000''] = ''k3s/etcd-snapshot-node2-1600000000''"
  "path_Join [''k3s'', ''etcd-snapshot-node1-1700000000''] = ''k3s/etcd-snapshot-node1-1700000000''"
  "filepath_Join [''/var/lib/rancher/k3s/server/db/snapshots'', ''etcd-snapshot-node1-1700000000'']
     = ''/var/lib/rancher/k3s/server/db/snapshots/etcd-snapshot-node1-1700000000''"
  by code_simp+

text \<open>The theorem at a key for which \<^verbatim>\<open>GetObject\<close> returns an error, at a client that
  reports the missing key in \<^verbatim>\<open>Stat\<close>, and at an object that ends early.\<close>

theorem Download_fetch_errors_witness:
  "GetObject example_download_env ''backups'' ''k3s/etcd-snapshot-node2-1600000000''
     = Inl (External ''The specified key does not exist.'') \<and>
   Download example_download_env
     (example_handle\<lparr>config := example_config\<lparr>ClusterResetRestorePath := ''etcd-snapshot-node2-1600000000''\<rparr>\<rparr>)
     Map.empty
   = (None,
      example_handle\<lparr>config := example_config\<lparr>ClusterResetRestorePath := ''etcd-snapshot-node2-1600000000''\<rparr>\<rparr>,
      Map.empty) \<and>
   fst (Download deferred_download_env example_handle Map.empty)
     = Some (External ''The specified key does not exist.'') \<and>
   snd (snd (Download deferred_download_env example_handle Map.empty))
     ''/var/lib/rancher/k3s/server/db/snapshots/etcd-snapshot-node1-1700000000''
     = Some \<lparr>content = [], mode = 438\<rparr> \<and>
   fst (Download truncated_download_env example_handle Map.empty)
     = Some (External ''connection reset by peer'') \<and>
   snd (snd (Download truncated_download_env example_handle Map.empty))
     ''/var/lib/rancher/k3s/server/db/snapshots/etcd-snapshot-node1-1700000000''
     = Some \<lparr>content = ''bytes'', mode = 438\<rparr>"
proof -
  let ?s2 = "example_handle\<lparr>config := example_config\<lparr>ClusterResetRestorePath := ''etcd-snapshot-node2-1600000000''\<rparr>\<rparr>"
  let ?gone = "External ''The specified key does not exist.''"
  let ?obj = "\<lparr>ObjectStat = Inl ?gone, ObjectData = [], ObjectReadErr = Some ?gone\<rparr>"
  let ?stat = "\<lparr>Key = ''k3s/etcd-snapshot-node1-1700000000'', ObjectSize = 10,
                LastModified = 1700000000123456789, Err = None\<rparr>"
  let ?cut = "\<lparr>ObjectStat = Inr ?stat, ObjectData = ''bytes'',
               ObjectReadErr = Some (External ''connection reset by peer'')\<rparr>"
  let ?dir = "''/var/lib/rancher/k3s/server/db/snapshots''"
  have c: "config example_handle = example_config" "config ?s2 = example_config\<lparr>ClusterResetRestorePath := ''etcd-snapshot-node2-1600000000''\<rparr>"
    "EtcdS3BucketName example_config = ''backups''" "EtcdS3Folder example_config = ''k3s''"
    "ClusterResetRestorePath example_config = ''etcd-snapshot-node1-1700000000''"
    by (simp_all add: example_handle_def example_config_def)
  have g: "GetObject example_download_env ''backups'' ''k3s/etcd-snapshot-node2-1600000000'' = Inl ?gone"
    by (simp add: example_download_env_def)
  have a: "Download example_download_env ?s2 Map.empty = (None, ?s2, Map.empty)"
    using Download_fetch_errors [where e = example_download_env and s = ?s2
        and fs = Map.empty and err = ?gone] g
    by (simp add: c example_keys)
  have cp: "io_CopyN ?cut (ObjectSize ?stat) = (''bytes'', Some (External ''connection reset by peer''))"
    by (simp add: io_CopyN_def)
  have d: "fst (Download deferred_download_env example_handle Map.empty) = Some ?gone \<and>
     snd (snd (Download deferred_download_env example_handle Map.empty))
       ''/var/lib/rancher/k3s/server/db/snapshots/etcd-snapshot-node1-1700000000''
       = Some \<lparr>content = [], mode = 438\<rparr>"
    using Download_fetch_errors [where e = deferred_download_env and s = example_handle
        and fs = Map.empty and err = ?gone and r = ?obj and dir = ?dir]
    by (simp add: c example_keys deferred_download_env_def)
  have t: "fst (Download truncated_download_env example_handle Map.empty)
       = Some (External ''connection reset by peer'') \<and>
     snd (snd (Download truncated_download_env example_handle Map.empty))
       ''/var/lib/rancher/k3s/server/db/snapshots/etcd-snapshot-node1-1700000000''
       = Some \<lparr>content = ''bytes'', mode = 438\<rparr>"
    using Download_fetch_errors [where e = truncated_download_env and s = example_handle
        and fs = Map.empty and err = "External ''connection reset by peer''" and r = ?cut
        and dir = ?dir and stat = ?stat and written = "''bytes''"] cp
    by (simp add: c example_keys truncated_download_env_def)
  show ?thesis using g a d t by blast
qed

text \<open>
  C2 for every key that is not in the bucket and every fetch that fails does not hold:
  with a client that defers the request, the missing key is an error of \<^verbatim>\<open>Stat\<close>;
  \<^verbatim>\<open>Download\<close> returns it, and the destination file, absent before, is there and empty
  afterwards.
\<close>

theorem Download_returns_late_failure:
  "fst (Download deferred_download_env example_handle Map.empty)
     = Some (External ''The specified key does not exist.'') \<and>
   Map.empty ''/var/lib/rancher/k3s/server/db/snapshots/etcd-snapshot-node1-1700000000''
     = (None :: local_file option) \<and>
   snd (snd (Download deferred_download_env example_handle Map.empty))
     ''/var/lib/rancher/k3s/server/db/snapshots/etcd-snapshot-node1-1700000000''
     = Some \<lparr>content = [], mode = 438\<rparr>"
  by (simp add: Download_def Let_def example_handle_def example_config_def example_keys
      deferred_download_env_def)

text \<open>A download that succeeds writes the file with mode 0600 and records its path.\<close>

lemma example_download:
  "Download example_download_env example_handle Map.empty =
     (None,
      example_handle\<lparr>config := example_config\<lparr>ClusterResetRestorePath :=
        ''/var/lib/rancher/k3s/server/db/snapshots/etcd-snapshot-node1-1700000000''\<rparr>\<rparr>,
      [''/var/lib/rancher/k3s/server/db/snapshots/etcd-snapshot-node1-1700000000'' \<mapsto>
         \<lparr>content = ''bytes'', mode = 384\<rparr>])"
proof -
  have k: "path_Join [''k3s'', ''etcd-snapshot-node1-1700000000''] = ''k3s/etcd-snapshot-node1-1700000000''"
    "filepath_Join [''/var/lib/rancher/k3s/server/db/snapshots'', ''etcd-snapshot-node1-1700000000'']
      = ''/var/lib/rancher/k3s/server/db/snapshots/etcd-snapshot-node1-1700000000''"
    by code_simp+
  show ?thesis
    by (simp add: Download_def Let_def example_handle_def example_config_def k
        example_download_env_def example_object_def io_CopyN_def)
qed

subsection \<open>Listing\<close>

lemma after_last_hyphen_drop:
  "drop (nat (strings_LastIndexByte s (CHR ''-'') + 1)) s = after_last_hyphen s"
proof (cases "CHR ''-'' \<in> set s")
  case False
  then have h: "takeWhile (\<lambda>x. x \<noteq> CHR ''-'') (rev s) = rev s"
    by (auto simp: takeWhile_eq_all_conv)
  show ?thesis unfolding after_last_hyphen_def h using False by (simp add: LastIndexByte_notin)
next
  case True
  then obtain p q where s: "s = p @ CHR ''-'' # q" "CHR ''-'' \<notin> set q"
    using split_list_last by fastforce
  have h: "takeWhile (\<lambda>x. x \<noteq> CHR ''-'') (rev q @ CHR ''-'' # rev p) = rev q"
    using s(2) by (auto simp: takeWhile_tail)
  show ?thesis
    unfolding after_last_hyphen_def s(1) rev_append rev.simps append_assoc append_Cons append_Nil h
    using LastIndexByte_last [OF s(2), of p]
    by (simp add: nat_add_distrib)
qed

lemma ParseInt_numeric:
  "numeric s \<Longrightarrow> ParseInt s = (if decimal s < 2 ^ 63 then Inr (decimal s) else Inl ErrRange)"
  by (cases s) (auto simp: numeric_def ParseInt_def is_digit_def Let_def)

lemma ParseInt_plus:
  "numeric s \<Longrightarrow>
   ParseInt (CHR ''+'' # s) = (if decimal s < 2 ^ 63 then Inr (decimal s) else Inl ErrRange)"
  by (auto simp: numeric_def ParseInt_def Let_def)

lemma ParseInt_not_numeric:
  assumes "\<not> numeric s" "\<not> (\<exists>t. (s = CHR ''+'' # t \<or> s = CHR ''-'' # t) \<and> numeric t)"
  shows "ParseInt s = Inl ErrSyntax"
proof (cases s)
  case Nil
  then show ?thesis by (simp add: ParseInt_def)
next
  case (Cons c t)
  show ?thesis
  proof (cases "c = CHR ''+'' \<or> c = CHR ''-''")
    case True
    then have "\<not> numeric t" using assms(2) Cons by auto
    then show ?thesis using True Cons by (auto simp: ParseInt_def numeric_def Let_def)
  next
    case False
    then show ?thesis using assms(1) Cons by (auto simp: ParseInt_def numeric_def Let_def)
  qed
qed

lemma after_last_hyphen_no_hyphen: "CHR ''-'' \<notin> set (after_last_hyphen s)"
  unfolding after_last_hyphen_def
  by (metis (mono_tags, lifting) set_rev set_takeWhileD)

lemma CreatedAt_listed:
  "CreatedAt (listed_snapshot cfg obj) =
     time_Unix
       (case ParseInt (after_last_hyphen
                         (fst (strings_CutSuffix (path_Base (Key obj)) compressedExtension))) of
          Inl err \<Rightarrow> Time_Unix (LastModified obj)
        | Inr n \<Rightarrow> n) 0"
  by (simp add: listed_snapshot_def Let_def after_last_hyphen_drop split: prod.splits)

lemma list_loop_total:
  "\<forall>obj \<in> set objs. Err obj = None \<Longrightarrow> \<exists>m. list_loop mapKey cfg snapshots objs = Inr m"
  by (induction objs arbitrary: snapshots) (auto simp: Let_def)

lemma list_entries_no_error: "obj \<in> set (list_entries objs opts) \<Longrightarrow> Err obj = None"
  by (auto simp: list_entries_def object_info_def Let_def split: if_splits)

lemma listSnapshots_total:
  "list_fault b = None \<Longrightarrow> \<exists>m. listSnapshots mapKey cfg b = Inr m"
  unfolding listSnapshots_def
  by (intro list_loop_total) (auto simp: ListObjects_def dest: list_entries_no_error)

lemma HasPrefix_Nil [simp]: "strings_HasPrefix s []"
  by (simp add: strings_HasPrefix_def)

lemma Size_listed [simp]: "Size (listed_snapshot cfg obj) = ObjectSize obj"
  by (simp add: listed_snapshot_def Let_def split: prod.splits)

lemma Name_listed [simp]: "Name (listed_snapshot cfg obj) = path_Base (Key obj)"
  by (simp add: listed_snapshot_def Let_def split: prod.splits)

lemma list_loop_skips_empty:
  "list_loop mapKey cfg snapshots objs =
   list_loop mapKey cfg snapshots (filter (\<lambda>obj. Err obj \<noteq> None \<or> ObjectSize obj \<noteq> 0) objs)"
  by (induction objs arbitrary: snapshots) (auto simp: Let_def split: option.splits)

lemma list_loop_sizes:
  "list_loop mapKey cfg snapshots objs = Inr m \<Longrightarrow> m k = Some sf \<Longrightarrow>
   (\<forall>k sf. snapshots k = Some sf \<longrightarrow> Size sf \<noteq> 0) \<Longrightarrow> Size sf \<noteq> 0"
proof (induction objs arbitrary: snapshots)
  case Nil
  then show ?case by auto
next
  case (Cons obj objs)
  show ?case
  proof (cases "Err obj")
    case (Some err)
    then show ?thesis using Cons.prems by simp
  next
    case None
    show ?thesis
    proof (cases "ObjectSize obj = 0")
      case True
      then show ?thesis using Cons None by simp
    next
      case False
      let ?sf = "listed_snapshot cfg obj"
      have l: "list_loop mapKey cfg (snapshots(mapKey ?sf \<mapsto> ?sf)) objs = Inr m"
        using Cons.prems(1) None False by (simp add: Let_def)
      have "\<forall>k sf. (snapshots(mapKey ?sf \<mapsto> ?sf)) k = Some sf \<longrightarrow> Size sf \<noteq> 0"
        using Cons.prems(3) False by auto
      then show ?thesis using Cons.IH [OF l Cons.prems(2)] by blast
    qed
  qed
qed

lemma list_entries_recursive:
  "Recursive opts \<Longrightarrow> list_entries objs opts = map object_info (under_prefix (Prefix opts) objs)"
  by (simp add: list_entries_def)

lemma list_entries_top_level:
  "filter (\<lambda>obj. Err obj \<noteq> None \<or> ObjectSize obj \<noteq> 0)
     (list_entries objs \<lparr>Prefix = [], Recursive = False\<rparr>) =
   map object_info
     (filter (\<lambda>obj. CHR ''/'' \<notin> set (stored_key obj) \<and> stored_size obj \<noteq> 0) objs)"
proof -
  have 1: "filter (\<lambda>obj. Err obj \<noteq> None \<or> ObjectSize obj \<noteq> 0)
             (map (\<lambda>k. \<lparr>Key = k, ObjectSize = 0, LastModified = zero_Time, Err = None\<rparr>) ks) = []"
    for ks by (induction ks) auto
  have 2: "filter (\<lambda>obj. Err obj \<noteq> None \<or> ObjectSize obj \<noteq> 0) (map object_info xs) =
           map object_info (filter (\<lambda>obj. stored_size obj \<noteq> 0) xs)"
    for xs by (induction xs) (auto simp: object_info_def)
  have e: "list_entries objs \<lparr>Prefix = [], Recursive = False\<rparr> =
      map object_info (filter (\<lambda>obj. CHR ''/'' \<notin> set (stored_key obj)) objs) @
      map (\<lambda>k. \<lparr>Key = k, ObjectSize = 0, LastModified = zero_Time, Err = None\<rparr>)
        (remdups (map (\<lambda>obj. takeWhile (\<lambda>x. x \<noteq> CHR ''/'') (stored_key obj) @ ''/'')
           (filter (\<lambda>obj. CHR ''/'' \<in> set (stored_key obj)) objs)))"
    by (simp add: list_entries_def under_prefix_def key_rest_def Let_def)
  show ?thesis
    unfolding e filter_append 1 2 by (simp add: conj_commute)
qed

text \<open>
  C7, as the code has it. Let \<open>seg\<close> be the text after the last hyphen of the base
  name of the key without the compressed extension. When \<open>seg\<close> is a string of decimal
  digits with a value below \<open>2 ^ 63\<close>, the timestamp of the record is that number of
  seconds. When \<open>seg\<close> is a string of digits with a larger value, or is neither a string
  of digits nor one after a plus sign, the timestamp is the last-modified time of the
  object in whole seconds. A listing without a listing error returns a mapping, whatever
  the names are.
\<close>

theorem listSnapshots_timestamp:
  "(let seg = after_last_hyphen
                (fst (strings_CutSuffix (path_Base (Key obj)) compressedExtension));
        fallback = time_Unix (Time_Unix (LastModified obj)) 0
    in (numeric seg \<and> decimal seg < 2 ^ 63 \<longrightarrow>
          CreatedAt (listed_snapshot cfg obj) = time_Unix (decimal seg) 0) \<and>
       (numeric seg \<and> decimal seg \<ge> 2 ^ 63 \<longrightarrow>
          CreatedAt (listed_snapshot cfg obj) = fallback) \<and>
       (\<not> numeric seg \<and> \<not> (\<exists>t. seg = CHR ''+'' # t \<and> numeric t) \<longrightarrow>
          CreatedAt (listed_snapshot cfg obj) = fallback)) \<and>
   (list_fault b = None \<longrightarrow> (\<exists>m. listSnapshots mapKey cfg b = Inr m))"
proof -
  define seg where "seg = after_last_hyphen
                (fst (strings_CutSuffix (path_Base (Key obj)) compressedExtension))"
  have c: "CreatedAt (listed_snapshot cfg obj) =
     time_Unix (case ParseInt seg of Inl err \<Rightarrow> Time_Unix (LastModified obj) | Inr n \<Rightarrow> n) 0"
    unfolding seg_def by (rule CreatedAt_listed)
  have nh: "CHR ''-'' \<notin> set seg" unfolding seg_def by (rule after_last_hyphen_no_hyphen)
  have 1: "CreatedAt (listed_snapshot cfg obj) = time_Unix (decimal seg) 0"
    if "numeric seg" "decimal seg < 2 ^ 63"
    using that by (simp add: c ParseInt_numeric)
  have 2: "CreatedAt (listed_snapshot cfg obj) = time_Unix (Time_Unix (LastModified obj)) 0"
    if "numeric seg" "decimal seg \<ge> 2 ^ 63"
    using that by (simp add: c ParseInt_numeric)
  have 3: "CreatedAt (listed_snapshot cfg obj) = time_Unix (Time_Unix (LastModified obj)) 0"
    if "\<not> numeric seg" "\<not> (\<exists>t. seg = CHR ''+'' # t \<and> numeric t)"
  proof -
    have "\<not> (\<exists>t. (seg = CHR ''+'' # t \<or> seg = CHR ''-'' # t) \<and> numeric t)"
      using that nh by auto
    then have "ParseInt seg = Inl ErrSyntax" using that by (intro ParseInt_not_numeric) auto
    then show ?thesis by (simp add: c)
  qed
  show ?thesis
    using 1 2 3 listSnapshots_total [of b mapKey cfg]
    unfolding seg_def [symmetric] Let_def by blast
qed

lemma example_segments:
  "after_last_hyphen (fst (strings_CutSuffix (path_Base (Key example_plain_entry)) compressedExtension))
     = ''1700000000''"
  "after_last_hyphen (fst (strings_CutSuffix (path_Base (Key example_zip_entry)) compressedExtension))
     = ''1700003600''"
  "after_last_hyphen (fst (strings_CutSuffix (path_Base (Key example_named_entry)) compressedExtension))
     = ''node1''"
  "after_last_hyphen (fst (strings_CutSuffix (path_Base (Key example_overflow_entry)) compressedExtension))
     = ''9223372036854775808''"
  by code_simp+

lemma example_numbers:
  "numeric ''1700000000''" "decimal ''1700000000'' = 1700000000"
  "numeric ''1700003600''" "decimal ''1700003600'' = 1700003600"
  "\<not> numeric ''node1''"
  "numeric ''9223372036854775808''" "decimal ''9223372036854775808'' = 9223372036854775808"
  by code_simp+

text \<open>The theorem at a name with a timestamp, at a compressed one, at a name without a
  number, and at a number that is too large.\<close>

theorem listSnapshots_timestamp_witness:
  "CreatedAt (listed_snapshot example_config example_plain_entry) = time_Unix 1700000000 0 \<and>
   CreatedAt (listed_snapshot example_config example_zip_entry) = time_Unix 1700003600 0 \<and>
   CreatedAt (listed_snapshot example_config example_named_entry) = time_Unix 1700007200 0 \<and>
   CreatedAt (listed_snapshot example_config example_overflow_entry) = time_Unix 1700010800 0 \<and>
   list_fault example_backend = None \<and>
   (\<exists>m. listSnapshots Name example_config example_backend = Inr m)"
proof -
  have lm: "Time_Unix (LastModified example_named_entry) = 1700007200"
    "Time_Unix (LastModified example_overflow_entry) = 1700010800"
    by (simp_all add: Time_Unix_def example_named_entry_def example_overflow_entry_def)
  have nf: "list_fault example_backend = None" by (simp add: example_backend_def)
  have np: "\<not> (\<exists>t. ''node1'' = CHR ''+'' # t \<and> numeric t)" by simp
  note t = listSnapshots_timestamp [where cfg = example_config and b = example_backend
      and mapKey = Name]
  show ?thesis
    using t [where obj = example_plain_entry] t [where obj = example_zip_entry]
      t [where obj = example_named_entry] t [where obj = example_overflow_entry]
      example_numbers np nf
    unfolding Let_def example_segments lm
    by simp
qed

text \<open>
  C7 with the numeric value of the digits as the timestamp of every name that ends in
  digits, and with the last-modified time itself as the fallback, fails: the digits
  \<^verbatim>\<open>9223372036854775808\<close> are not the timestamp of the record, and the fallback of a
  name without a number is the last-modified time cut to whole seconds.
\<close>

theorem listSnapshots_timestamp_not_numeric_value:
  "numeric (after_last_hyphen
     (fst (strings_CutSuffix (path_Base (Key example_overflow_entry)) compressedExtension))) \<and>
   CreatedAt (listed_snapshot example_config example_overflow_entry) \<noteq>
     time_Unix (decimal (after_last_hyphen
       (fst (strings_CutSuffix (path_Base (Key example_overflow_entry)) compressedExtension)))) 0 \<and>
   \<not> numeric (after_last_hyphen
     (fst (strings_CutSuffix (path_Base (Key example_named_entry)) compressedExtension))) \<and>
   CreatedAt (listed_snapshot example_config example_named_entry) \<noteq>
     LastModified example_named_entry"
proof -
  have 1: "CreatedAt (listed_snapshot example_config example_overflow_entry) = time_Unix 1700010800 0"
    and 2: "CreatedAt (listed_snapshot example_config example_named_entry) = time_Unix 1700007200 0"
    by code_simp+
  have 3: "LastModified example_named_entry = 1700007200500000000"
    by (simp add: example_named_entry_def)
  show ?thesis
    unfolding example_segments 1 2 3 using example_numbers by (simp add: time_Unix_def)
qed

text \<open>
  C8, as the code has it. The options of the listing are the folder as prefix, and
  recursive exactly when the folder is not empty. With a folder, the listing has every
  object whose key starts with the folder. Without a folder the listing is not recursive:
  the records are made from the objects at the top level of the bucket only. In both
  cases the objects of size 0 are skipped, and no record of the result has size 0.
\<close>

theorem listSnapshots_listing:
  "listSnapshots_options cfg = \<lparr>Prefix = EtcdS3Folder cfg, Recursive = (EtcdS3Folder cfg \<noteq> [])\<rparr> \<and>
   (EtcdS3Folder cfg \<noteq> [] \<and> list_fault b = None \<longrightarrow>
      ListObjects b (EtcdS3BucketName cfg) (listSnapshots_options cfg) =
        map object_info (under_prefix (EtcdS3Folder cfg) (objects b))) \<and>
   (EtcdS3Folder cfg = [] \<and> list_fault b = None \<longrightarrow>
      listSnapshots mapKey cfg b =
        list_loop mapKey cfg Map.empty
          (map object_info
             (filter (\<lambda>obj. CHR ''/'' \<notin> set (stored_key obj) \<and> stored_size obj \<noteq> 0)
                (objects b)))) \<and>
   listSnapshots mapKey cfg b =
     list_loop mapKey cfg Map.empty
       (filter (\<lambda>obj. Err obj \<noteq> None \<or> ObjectSize obj \<noteq> 0)
          (ListObjects b (EtcdS3BucketName cfg) (listSnapshots_options cfg))) \<and>
   (listSnapshots mapKey cfg b = Inr m \<and> m k = Some sf \<longrightarrow> Size sf \<noteq> 0)"
proof -
  have 1: "listSnapshots_options cfg =
             \<lparr>Prefix = EtcdS3Folder cfg, Recursive = (EtcdS3Folder cfg \<noteq> [])\<rparr>"
    by (simp add: listSnapshots_options_def)
  have 2: "ListObjects b (EtcdS3BucketName cfg) (listSnapshots_options cfg) =
        map object_info (under_prefix (EtcdS3Folder cfg) (objects b))"
    if "EtcdS3Folder cfg \<noteq> []" "list_fault b = None"
    using that by (simp add: ListObjects_def listSnapshots_options_def list_entries_recursive)
  have 4: "listSnapshots mapKey cfg b =
     list_loop mapKey cfg Map.empty
       (filter (\<lambda>obj. Err obj \<noteq> None \<or> ObjectSize obj \<noteq> 0)
          (ListObjects b (EtcdS3BucketName cfg) (listSnapshots_options cfg)))"
    unfolding listSnapshots_def by (rule list_loop_skips_empty)
  have 3: "listSnapshots mapKey cfg b =
        list_loop mapKey cfg Map.empty
          (map object_info
             (filter (\<lambda>obj. CHR ''/'' \<notin> set (stored_key obj) \<and> stored_size obj \<noteq> 0)
                (objects b)))"
    if "EtcdS3Folder cfg = []" "list_fault b = None"
  proof -
    have "ListObjects b (EtcdS3BucketName cfg) (listSnapshots_options cfg) =
          list_entries (objects b) \<lparr>Prefix = [], Recursive = False\<rparr>"
      using that by (simp add: ListObjects_def listSnapshots_options_def)
    then show ?thesis unfolding 4 by (simp only: list_entries_top_level)
  qed
  have 5: "Size sf \<noteq> 0" if "listSnapshots mapKey cfg b = Inr m" "m k = Some sf"
    using that list_loop_sizes [of mapKey cfg Map.empty _ m k sf]
    unfolding listSnapshots_def by simp
  show ?thesis using 1 2 3 4 5 by blast
qed

lemma example_names:
  "path_Base ''k3s/etcd-snapshot-node1-1700000000'' = ''etcd-snapshot-node1-1700000000''"
  by code_simp

text \<open>The theorem at a bucket with one snapshot and an empty folder marker, with the
  folder \<^verbatim>\<open>k3s\<close> and with no folder.\<close>

theorem listSnapshots_listing_witness:
  "EtcdS3Folder example_config \<noteq> [] \<and> list_fault small_backend = None \<and>
   ListObjects small_backend (EtcdS3BucketName example_config) (listSnapshots_options example_config) =
     [example_plain_entry,
      \<lparr>Key = ''k3s/'', ObjectSize = 0, LastModified = 1690000000000000000, Err = None\<rparr>] \<and>
   listSnapshots Name example_config small_backend =
     Inr [''etcd-snapshot-node1-1700000000'' \<mapsto> listed_snapshot example_config example_plain_entry] \<and>
   Size (listed_snapshot example_config example_plain_entry) \<noteq> 0 \<and>
   EtcdS3Folder (example_config\<lparr>EtcdS3Folder := []\<rparr>) = [] \<and>
   listSnapshots Name (example_config\<lparr>EtcdS3Folder := []\<rparr>) small_backend = Inr Map.empty"
proof -
  let ?m = "[''etcd-snapshot-node1-1700000000'' \<mapsto> listed_snapshot example_config example_plain_entry]"
  have c: "EtcdS3Folder example_config \<noteq> []" "EtcdS3Folder example_config = ''k3s''"
    by (simp_all add: example_config_def)
  have nf: "list_fault small_backend = None" by (simp add: small_backend_def)
  note t = listSnapshots_listing [where cfg = example_config and b = small_backend
      and mapKey = Name and m = ?m and k = "''etcd-snapshot-node1-1700000000''"
      and sf = "listed_snapshot example_config example_plain_entry"]
  note u = listSnapshots_listing [where cfg = "example_config\<lparr>EtcdS3Folder := []\<rparr>"
      and b = small_backend and mapKey = Name]
  have "ListObjects small_backend (EtcdS3BucketName example_config) (listSnapshots_options example_config)
        = map object_info (under_prefix (EtcdS3Folder example_config) (objects small_backend))"
    using t c(1) nf by blast
  then have l: "ListObjects small_backend (EtcdS3BucketName example_config)
                  (listSnapshots_options example_config) =
     [example_plain_entry,
      \<lparr>Key = ''k3s/'', ObjectSize = 0, LastModified = 1690000000000000000, Err = None\<rparr>]"
    by (simp add: c(2) small_backend_def under_prefix_def strings_HasPrefix_def object_info_def
        example_plain_entry_def)
  have "listSnapshots Name example_config small_backend =
     list_loop Name example_config Map.empty
       (filter (\<lambda>obj. Err obj \<noteq> None \<or> ObjectSize obj \<noteq> 0)
          (ListObjects small_backend (EtcdS3BucketName example_config)
             (listSnapshots_options example_config)))"
    using t by blast
  then have r: "listSnapshots Name example_config small_backend = Inr ?m"
    unfolding l by (simp add: example_plain_entry_def example_names Let_def)
  have s: "Size (listed_snapshot example_config example_plain_entry) \<noteq> 0"
    using t r by simp
  have "listSnapshots Name (example_config\<lparr>EtcdS3Folder := []\<rparr>) small_backend =
        list_loop Name (example_config\<lparr>EtcdS3Folder := []\<rparr>) Map.empty
          (map object_info
             (filter (\<lambda>obj. CHR ''/'' \<notin> set (stored_key obj) \<and> stored_size obj \<noteq> 0)
                (objects small_backend)))"
    using u nf by simp
  then have e: "listSnapshots Name (example_config\<lparr>EtcdS3Folder := []\<rparr>) small_backend = Inr Map.empty"
    by (simp add: small_backend_def)
  show ?thesis using c nf l r s e by simp
qed

text \<open>
  C8 with a recursive listing of the whole bucket for the empty folder fails: the options
  are not recursive then, and the snapshot under \<^verbatim>\<open>k3s/\<close> is not in the result.
\<close>

theorem listSnapshots_not_recursive_without_folder:
  "\<not> Recursive (listSnapshots_options (example_config\<lparr>EtcdS3Folder := []\<rparr>)) \<and>
   stored_size (hd (objects small_backend)) \<noteq> 0 \<and>
   listSnapshots Name (example_config\<lparr>EtcdS3Folder := []\<rparr>) small_backend = Inr Map.empty"
  by (simp add: listSnapshots_options_def listSnapshots_def ListObjects_def small_backend_def
      list_entries_def under_prefix_def key_rest_def object_info_def Let_def)

subsection \<open>Retention\<close>

lemma collect_entries_no_error:
  "\<forall>x \<in> set xs. Err x = None \<Longrightarrow> collect_entries acc xs = Inr (acc @ xs)"
  by (induction xs arbitrary: acc) auto

lemma remove_entries_no_fault:
  "\<forall>key. remove_fault b key = None \<Longrightarrow>
   remove_entries b bucketName ds =
     (None, b\<lparr>objects := filter (\<lambda>obj. stored_key obj \<notin> Key ` set ds) (objects b)\<rparr>)"
proof (induction ds arbitrary: b)
  case Nil
  then show ?case by simp
next
  case (Cons d ds)
  let ?b' = "b\<lparr>objects := filter (\<lambda>obj. stored_key obj \<noteq> Key d) (objects b)\<rparr>"
  have r: "RemoveObject b bucketName (Key d) = (None, ?b')"
    using Cons.prems by (simp add: RemoveObject_def)
  have "\<forall>key. remove_fault ?b' key = None" using Cons.prems by simp
  then have "remove_entries ?b' bucketName ds =
     (None, ?b'\<lparr>objects := filter (\<lambda>obj. stored_key obj \<notin> Key ` set ds) (objects ?b')\<rparr>)"
    by (rule Cons.IH)
  moreover have "filter (\<lambda>obj. stored_key obj \<notin> Key ` set ds)
                   (filter (\<lambda>obj. stored_key obj \<noteq> Key d) (objects b)) =
                 filter (\<lambda>obj. stored_key obj \<notin> Key ` set (d # ds)) (objects b)"
    by (auto intro: filter_cong)
  ultimately show ?case using r by simp
qed

lemma set_insert_by: "set (insert_by lt x ys) = insert x (set ys)"
  by (induction ys) auto

lemma mset_insert_by: "mset (insert_by lt x ys) = add_mset x (mset ys)"
  by (induction ys) auto

lemma sorted_insert_by_newer:
  "sorted_wrt (\<lambda>a b. \<not> newer b a) ys \<Longrightarrow> sorted_wrt (\<lambda>a b. \<not> newer b a) (insert_by newer x ys)"
  by (induction ys) (auto simp: set_insert_by newer_def Before_def)

lemma insertion_sort_sorts: "sorts insertion_sort newer xs"
proof -
  have "mset (foldr (insert_by newer) xs []) = mset xs"
    by (induction xs) (auto simp: mset_insert_by)
  moreover have "sorted_wrt (\<lambda>a b. \<not> newer b a) (foldr (insert_by newer) xs [])"
    by (induction xs) (auto simp: sorted_insert_by_newer)
  ultimately show ?thesis by (simp add: sorts_def insertion_sort_def)
qed

lemma stored_object_eq_key:
  "distinct (map stored_key objs) \<Longrightarrow> x \<in> set objs \<Longrightarrow> y \<in> set objs \<Longrightarrow>
   stored_key x = stored_key y \<Longrightarrow> x = y"
  by (meson distinct_map inj_onD)

lemma Key_object_info [simp]: "Key (object_info obj) = stored_key obj"
  and LastModified_object_info [simp]: "LastModified (object_info obj) = stored_modified obj"
  and Err_object_info [simp]: "Err (object_info obj) = None"
  by (simp_all add: object_info_def)

text \<open>
  C1: let the retention count be at least 1, the backend answer the listing and every
  removal without an error, the keys of the bucket be distinct, and \<^verbatim>\<open>sort.Slice\<close>
  return the listing sorted. Then \<^verbatim>\<open>snapshotRetention\<close> returns no error and removes a
  set \<open>deleted\<close> of objects under the snapshot prefix and nothing else. With \<open>N\<close>
  objects under the prefix and the retention count \<open>R\<close>, the number of deleted objects
  is \<open>N - R\<close>, which is none when \<open>N \<le> R\<close>, and the bucket is then unchanged; no
  deleted object is newer than an object that is kept; and a second run on the bucket
  that results returns no error and leaves it unchanged.
\<close>

theorem snapshotRetention_prunes_oldest:
  assumes retention: "1 \<le> EtcdSnapshotRetention cfg"
    and healthy: "list_fault b = None" "\<forall>key. remove_fault b key = None"
    and keys: "distinct (map stored_key (objects b))"
    and sorted: "sorts sort_Slice newer
                   (ListObjects b (EtcdS3BucketName cfg)
                      \<lparr>Prefix = snapshotPrefix cfg, Recursive = True\<rparr>)"
  shows "\<exists>deleted.
     snapshotRetention sort_Slice cfg b =
       (None, b\<lparr>objects := filter (\<lambda>obj. obj \<notin> set deleted) (objects b)\<rparr>) \<and>
     distinct deleted \<and>
     set deleted \<subseteq> set (under_prefix (snapshotPrefix cfg) (objects b)) \<and>
     length deleted =
       length (under_prefix (snapshotPrefix cfg) (objects b)) - nat (EtcdSnapshotRetention cfg) \<and>
     (\<forall>d \<in> set deleted. \<forall>k \<in> set (under_prefix (snapshotPrefix cfg) (objects b)) - set deleted.
        stored_modified d \<le> stored_modified k) \<and>
     (length (under_prefix (snapshotPrefix cfg) (objects b)) \<le> nat (EtcdSnapshotRetention cfg) \<longrightarrow>
        snapshotRetention sort_Slice cfg b = (None, b)) \<and>
     snapshotRetention sort_Slice cfg
       (b\<lparr>objects := filter (\<lambda>obj. obj \<notin> set deleted) (objects b)\<rparr>) =
       (None, b\<lparr>objects := filter (\<lambda>obj. obj \<notin> set deleted) (objects b)\<rparr>)"
proof -
  define pre where "pre = snapshotPrefix cfg"
  define M where "M = under_prefix pre (objects b)"
  define L where "L = map object_info M"
  define R where "R = nat (EtcdSnapshotRetention cfg)"
  have listing: "ListObjects b' (EtcdS3BucketName cfg) \<lparr>Prefix = pre, Recursive = True\<rparr> =
                 map object_info (under_prefix pre (objects b'))"
    if "list_fault b' = None" for b'
    using that by (simp add: ListObjects_def list_entries_def)
  have collect: "collect_entries [] (map object_info xs) = Inr (map object_info xs)" for xs
    using collect_entries_no_error [of "map object_info xs" "[]"] by simp
  have few: "snapshotRetention sort_Slice cfg b' = (None, b')"
    if "list_fault b' = None" "length (under_prefix pre (objects b')) \<le> R" for b'
  proof -
    have "int (length (under_prefix pre (objects b'))) \<le> EtcdSnapshotRetention cfg"
      using that(2) retention unfolding R_def by linarith
    then show ?thesis
      using that(1) retention
      by (simp add: snapshotRetention_def Let_def pre_def [symmetric] listing collect)
  qed
  have distM: "distinct (map stored_key M)" "distinct M" "set M \<subseteq> set (objects b)"
  proof -
    show "distinct (map stored_key M)"
      using keys unfolding M_def under_prefix_def by (rule distinct_map_filter)
    then show "distinct M" by (simp add: distinct_map)
    show "set M \<subseteq> set (objects b)" by (auto simp: M_def under_prefix_def)
  qed
  show ?thesis
  proof (cases "length M \<le> R")
    case True
    have "snapshotRetention sort_Slice cfg b = (None, b)"
      using few [of b] healthy True by (simp add: M_def)
    then show ?thesis
      using True by (intro exI [of _ "[]"]) (simp add: M_def pre_def R_def)
  next
    case False
    define S where "S = sort_Slice newer L"
    define D where "D = drop R S"
    define deleted where "deleted = filter (\<lambda>obj. stored_key obj \<in> Key ` set D) (objects b)"
    let ?b' = "b\<lparr>objects := filter (\<lambda>obj. obj \<notin> set deleted) (objects b)\<rparr>"
    have srt: "mset S = mset L" "sorted_wrt (\<lambda>a b. \<not> newer b a) S"
      using sorted healthy(1)
      by (simp_all add: sorts_def pre_def [symmetric] listing S_def L_def M_def)
    have setS: "set S = set L" using srt(1) by (rule mset_eq_setD)
    have lenS: "length S = length M" using srt(1) by (metis L_def length_map size_mset)
    have distL: "distinct L"
      using distM(1) unfolding L_def
      by (metis (no_types, lifting) Key_object_info distinct_map inj_on_def)
    have distD: "distinct D"
      using distL srt(1) unfolding D_def by (metis distinct_drop mset_eq_imp_distinct_iff)
    have inD: "stored_key obj \<in> Key ` set D \<longleftrightarrow> object_info obj \<in> set D"
      if "obj \<in> set (objects b)" for obj
    proof
      assume "stored_key obj \<in> Key ` set D"
      then obtain e where e: "e \<in> set D" "Key e = stored_key obj" by auto
      then have "e \<in> set L" using setS in_set_dropD unfolding D_def by fastforce
      then obtain m where m: "m \<in> set M" "e = object_info m" unfolding L_def by auto
      then have "m = obj"
        using stored_object_eq_key [OF keys _ that, of m] distM(3) e(2) by auto
      then show "object_info obj \<in> set D" using e m by simp
    next
      assume "object_info obj \<in> set D"
      then show "stored_key obj \<in> Key ` set D" by (metis Key_object_info imageI)
    qed
    have delM: "set deleted \<subseteq> set M"
    proof
      fix obj assume o: "obj \<in> set deleted"
      then have ob: "obj \<in> set (objects b)" "object_info obj \<in> set D"
        using inD by (auto simp: deleted_def)
      then have "object_info obj \<in> set L" using setS in_set_dropD unfolding D_def by fastforce
      then obtain m where m: "m \<in> set M" "object_info obj = object_info m" unfolding L_def by auto
      then have "stored_key m = stored_key obj" by (metis Key_object_info)
      then have "m = obj" using stored_object_eq_key [OF keys _ ob(1), of m] distM(3) m(1) by auto
      then show "obj \<in> set M" using m by simp
    qed
    have distdel: "distinct deleted"
      using keys unfolding deleted_def by (simp add: distinct_map)
    have setdel: "object_info ` set deleted = set D"
    proof
      show "object_info ` set deleted \<subseteq> set D" using inD by (auto simp: deleted_def)
    next
      show "set D \<subseteq> object_info ` set deleted"
      proof
        fix e assume e: "e \<in> set D"
        then have "e \<in> set L" using setS in_set_dropD unfolding D_def by fastforce
        then obtain m where m: "m \<in> set M" "e = object_info m" unfolding L_def by auto
        then have "m \<in> set deleted" using e distM(3) inD [of m] by (auto simp: deleted_def)
        then show "e \<in> object_info ` set deleted" using m by auto
      qed
    qed
    have injdel: "inj_on object_info (set deleted)"
    proof (rule inj_onI)
      fix x y assume "x \<in> set deleted" "y \<in> set deleted" "object_info x = object_info y"
      then show "x = y"
        using stored_object_eq_key [OF keys, of x y]
        by (metis Key_object_info deleted_def filter_is_subset subsetD)
    qed
    have lendel: "length deleted = length M - R"
    proof -
      have "length deleted = card (set deleted)" using distdel by (simp add: distinct_card)
      also have "\<dots> = card (set D)" using injdel setdel by (metis card_image)
      also have "\<dots> = length D" using distD by (simp add: distinct_card)
      also have "\<dots> = length M - R" by (simp add: D_def lenS)
      finally show ?thesis .
    qed
    have run: "snapshotRetention sort_Slice cfg b = (None, ?b')"
    proof -
      have "filter (\<lambda>obj. stored_key obj \<notin> Key ` set D) (objects b) =
            filter (\<lambda>obj. obj \<notin> set deleted) (objects b)"
        by (rule filter_cong) (auto simp: deleted_def)
      then have "remove_entries b (EtcdS3BucketName cfg) D = (None, ?b')"
        using remove_entries_no_fault [OF healthy(2), of "EtcdS3BucketName cfg" D] by simp
      moreover have "\<not> int (length L) \<le> EtcdSnapshotRetention cfg"
        using False retention unfolding R_def L_def by simp
      moreover have "collect_entries []
          (ListObjects b (EtcdS3BucketName cfg) \<lparr>Prefix = pre, Recursive = True\<rparr>) = Inr L"
        using healthy(1) by (simp add: listing collect L_def M_def)
      ultimately show ?thesis
        using retention
        by (simp add: snapshotRetention_def Let_def pre_def [symmetric] D_def S_def R_def)
    qed
    have order: "stored_modified d \<le> stored_modified k"
      if "d \<in> set deleted" "k \<in> set M - set deleted" for d k
    proof -
      have d: "object_info d \<in> set (drop R S)" using that(1) setdel by (auto simp: D_def)
      have "object_info k \<in> set S" using that(2) setS by (auto simp: L_def)
      moreover have "object_info k \<notin> set D"
        using that(2) inD [of k] distM(3) by (auto simp: deleted_def)
      ultimately have k: "object_info k \<in> set (take R S)"
        by (metis D_def Un_iff append_take_drop_id set_append)
      have "sorted_wrt (\<lambda>a b. \<not> newer b a) (take R S @ drop R S)" using srt(2) by simp
      then have "\<not> newer (object_info d) (object_info k)"
        using d k unfolding sorted_wrt_append by blast
      then show ?thesis by (simp add: newer_def Before_def)
    qed
    have again: "snapshotRetention sort_Slice cfg ?b' = (None, ?b')"
    proof -
      have "under_prefix pre (objects ?b') = filter (\<lambda>obj. obj \<notin> set deleted) M"
        by (auto simp: under_prefix_def M_def intro: filter_cong)
      moreover have "filter (\<lambda>obj. obj \<in> set deleted) M = deleted"
      proof -
        have "filter (\<lambda>obj. obj \<in> set deleted) M =
              filter (\<lambda>obj. obj \<in> set deleted) (objects b)"
          using delM unfolding M_def under_prefix_def by (auto intro: filter_cong)
        also have "\<dots> = filter (\<lambda>obj. stored_key obj \<in> Key ` set D) (objects b)"
          by (rule filter_cong) (auto simp: deleted_def)
        finally show ?thesis by (simp add: deleted_def)
      qed
      moreover have "length (filter (\<lambda>obj. obj \<in> set deleted) M) +
                     length (filter (\<lambda>obj. obj \<notin> set deleted) M) = length M"
        using sum_length_filter_compl [of "\<lambda>obj. obj \<in> set deleted" M] by simp
      ultimately have "length (under_prefix pre (objects ?b')) = R"
        using lendel False by simp
      then show ?thesis using few [of ?b'] healthy(1) by simp
    qed
    show ?thesis
      using run distdel delM lendel order again False
      by (intro exI [of _ deleted]) (simp add: M_def pre_def R_def)
  qed
qed

lemma example_retention:
  "snapshotPrefix example_config = ''k3s/etcd-snapshot''"
  "fst (snapshotRetention insertion_sort example_config retention_backend) = None"
  "map stored_key (objects (snd (snapshotRetention insertion_sort example_config retention_backend)))
     = [''k3s/etcd-snapshot-node1-1700010800'', ''k3s/on-demand-node1-1690000000'',
        ''k3s/etcd-snapshot-node1-1700014400'', ''k3s/etcd-snapshot-node1-1700007200'']"
  by code_simp+

text \<open>The theorem at the retention count 3 and a bucket with five snapshots: the
  snapshots of the two oldest times are removed, those of the three newest times and
  the object outside the prefix remain.\<close>

theorem snapshotRetention_prunes_oldest_witness:
  "1 \<le> EtcdSnapshotRetention example_config \<and>
   list_fault retention_backend = None \<and>
   (\<forall>key. remove_fault retention_backend key = None) \<and>
   distinct (map stored_key (objects retention_backend)) \<and>
   sorts insertion_sort newer
     (ListObjects retention_backend (EtcdS3BucketName example_config)
        \<lparr>Prefix = snapshotPrefix example_config, Recursive = True\<rparr>) \<and>
   length (under_prefix (snapshotPrefix example_config) (objects retention_backend)) = 5 \<and>
   nat (EtcdSnapshotRetention example_config) = 3 \<and>
   (\<exists>deleted.
      snapshotRetention insertion_sort example_config retention_backend =
        (None, retention_backend\<lparr>objects :=
                 filter (\<lambda>obj. obj \<notin> set deleted) (objects retention_backend)\<rparr>) \<and>
      length deleted = 2 \<and>
      snapshotRetention insertion_sort example_config
        (retention_backend\<lparr>objects :=
           filter (\<lambda>obj. obj \<notin> set deleted) (objects retention_backend)\<rparr>) =
        (None, retention_backend\<lparr>objects :=
                 filter (\<lambda>obj. obj \<notin> set deleted) (objects retention_backend)\<rparr>)) \<and>
   map stored_key (objects (snd (snapshotRetention insertion_sort example_config retention_backend)))
     = [''k3s/etcd-snapshot-node1-1700010800'', ''k3s/on-demand-node1-1690000000'',
        ''k3s/etcd-snapshot-node1-1700014400'', ''k3s/etcd-snapshot-node1-1700007200'']"
proof -
  have h1: "1 \<le> EtcdSnapshotRetention example_config"
    and r: "nat (EtcdSnapshotRetention example_config) = 3"
    by (simp_all add: example_config_def)
  have h2: "list_fault retention_backend = None"
    and h3: "\<forall>key. remove_fault retention_backend key = None"
    and h4: "distinct (map stored_key (objects retention_backend))"
    by (simp_all add: retention_backend_def)
  have h5: "sorts insertion_sort newer
     (ListObjects retention_backend (EtcdS3BucketName example_config)
        \<lparr>Prefix = snapshotPrefix example_config, Recursive = True\<rparr>)"
    by (rule insertion_sort_sorts)
  have n: "length (under_prefix (snapshotPrefix example_config) (objects retention_backend)) = 5"
    unfolding example_retention(1)
    by (simp add: under_prefix_def retention_backend_def strings_HasPrefix_def)
  from snapshotRetention_prunes_oldest [OF h1 h2 h3 h4 h5]
  obtain deleted where d:
    "snapshotRetention insertion_sort example_config retention_backend =
        (None, retention_backend\<lparr>objects :=
                 filter (\<lambda>obj. obj \<notin> set deleted) (objects retention_backend)\<rparr>)"
    "length deleted =
       length (under_prefix (snapshotPrefix example_config) (objects retention_backend))
       - nat (EtcdSnapshotRetention example_config)"
    "snapshotRetention insertion_sort example_config
        (retention_backend\<lparr>objects :=
           filter (\<lambda>obj. obj \<notin> set deleted) (objects retention_backend)\<rparr>) =
        (None, retention_backend\<lparr>objects :=
                 filter (\<lambda>obj. obj \<notin> set deleted) (objects retention_backend)\<rparr>)"
    by blast
  have "length deleted = 2" using d(2) n r by simp
  then have e: "\<exists>deleted.
      snapshotRetention insertion_sort example_config retention_backend =
        (None, retention_backend\<lparr>objects :=
                 filter (\<lambda>obj. obj \<notin> set deleted) (objects retention_backend)\<rparr>) \<and>
      length deleted = 2 \<and>
      snapshotRetention insertion_sort example_config
        (retention_backend\<lparr>objects :=
           filter (\<lambda>obj. obj \<notin> set deleted) (objects retention_backend)\<rparr>) =
        (None, retention_backend\<lparr>objects :=
                 filter (\<lambda>obj. obj \<notin> set deleted) (objects retention_backend)\<rparr>)"
    using d(1,3) by blast
  show ?thesis using h1 h2 h3 h4 h5 n r e example_retention(3) by blast
qed

end
